theory Spec2Isabelle
  imports Complex_Main "HOL-Library.Word"
begin

section \<open>Outcomes of a call\<close>

text \<open>
  The engine is C++. A call either returns, or throws one of the standard exceptions
  the source names, or has undefined behaviour (an unchecked \<open>operator[]\<close> outside
  the vector, a null handle dereferenced). An exception can be caught; undefined
  behaviour cannot, so the two are kept apart.
\<close>

datatype exn = invalid_argument string | out_of_range string | bad_alloc

datatype fault = Throw exn | Undefined

type_synonym 'a result = "fault + 'a"

definition bind :: "'a result \<Rightarrow> ('a \<Rightarrow> 'b result) \<Rightarrow> 'b result" where
  "bind r f = (case r of Inl e \<Rightarrow> Inl e | Inr x \<Rightarrow> f x)"

text \<open>The failures of the value type, by the names the specification gives them.
  The source throws \<open>std::invalid_argument\<close> and \<open>std::out_of_range\<close> with these messages.\<close>

definition InvalidDimension :: fault where
  "InvalidDimension = Throw (invalid_argument ''Matrix dimensions must be positive'')"

definition SizeMismatch :: fault where
  "SizeMismatch = Throw (invalid_argument ''Data size does not match matrix dimensions'')"

definition IndexOutOfRange :: fault where
  "IndexOutOfRange = Throw (out_of_range ''Matrix index out of range'')"

definition DimensionMismatch_add :: fault where
  "DimensionMismatch_add = Throw (invalid_argument ''Matrix dimensions must match for addition'')"

definition DimensionMismatch_mul :: fault where
  "DimensionMismatch_mul = Throw (invalid_argument ''Invalid matrix dimensions for multiplication'')"

section \<open>Sizes, vectors and allocation\<close>

type_synonym size_t = "64 word"

text \<open>
  Memory is the environment's: a request is granted or refused by an allocator the
  model takes as a parameter. \<open>Buffer n\<close> asks for the storage of a vector of \<open>n\<close>
  doubles, \<open>Object\<close> for a \<open>Matrix\<close> object (\<open>new Matrix\<close>). A refused request throws;
  \<open>std::length_error\<close> of a vector beyond \<open>max_size()\<close> is counted as a refusal too.
  An empty vector asks for nothing. No operation below makes more than one request
  of each kind, so an allocator without state loses nothing.
\<close>

datatype request = Buffer nat | Object

type_synonym allocator = "request \<Rightarrow> bool"

text \<open>
  Allocators for concrete runs: one that grants every request, one that grants none,
  one that grants buffers but no object, and one that grants every buffer below
  \<open>2^61\<close> doubles, that is below \<open>2^64\<close> bytes: more than that no 64-bit address
  space holds.
\<close>

fun grant_all :: allocator where
  "grant_all q = True"

fun grant_none :: allocator where
  "grant_none q = False"

fun grant_buffers :: allocator where
  "grant_buffers (Buffer n) = True"
| "grant_buffers Object = False"

fun grant_addressable :: allocator where
  "grant_addressable (Buffer n) = (n < 2 ^ 61)"
| "grant_addressable Object = True"

definition vector_alloc :: "allocator \<Rightarrow> nat \<Rightarrow> bool" where
  "vector_alloc alloc n \<longleftrightarrow> n = 0 \<or> alloc (Buffer n)"

definition vsize :: "'a list \<Rightarrow> size_t" where
  "vsize xs = of_nat (length xs)"

definition vec_read :: "'a list \<Rightarrow> size_t \<Rightarrow> 'a result" where
  "vec_read xs i = (if unat i < length xs then Inr (xs ! unat i) else Inl Undefined)"

definition vec_ref :: "'a list \<Rightarrow> size_t \<Rightarrow> nat result" where
  "vec_ref xs i = (if unat i < length xs then Inr (unat i) else Inl Undefined)"

definition vec_write :: "'a list \<Rightarrow> size_t \<Rightarrow> 'a \<Rightarrow> 'a list result" where
  "vec_write xs i v = (if unat i < length xs then Inr (xs[unat i := v]) else Inl Undefined)"

text \<open>A counted loop \<open>for (size_t i = i0; i < n; ++i)\<close> over a state; a failing body ends it.\<close>

function for_loop :: "size_t \<Rightarrow> size_t \<Rightarrow> (size_t \<Rightarrow> 's \<Rightarrow> 's result) \<Rightarrow> 's \<Rightarrow> 's result" where
  "for_loop i n body s =
     (if i < n then (case body i s of Inl e \<Rightarrow> Inl e | Inr s' \<Rightarrow> for_loop (i + 1) n body s')
      else Inr s)"
  by pat_completeness auto
termination
proof (relation "measure (\<lambda>(i, n, body, s). unat n - unat i)")
  show "wf (measure (\<lambda>(i, n, body, s). unat n - unat i))"
    by simp
next
  fix i n :: size_t and body :: "size_t \<Rightarrow> 's \<Rightarrow> 's result" and s s' :: 's
  assume "i < n"
  then have "unat i < unat n"
    by (simp add: word_less_nat_alt)
  moreover from \<open>i < n\<close> have "unat (i + 1) = unat i + 1"
    by (metis (no_types, lifting) add.commute add_cancel_left_right inc_i
        inc_le unat_plus_simple unsigned_0 unsigned_1 word_gt_0)
  ultimately show "((i + 1, n, body, s'), (i, n, body, s)) \<in> measure (\<lambda>(i, n, body, s). unat n - unat i)"
    by simp
qed

declare for_loop.simps [simp del]

section \<open>The Matrix value type\<close>

text \<open>
  The elements are doubles. Their arithmetic stays abstract: the element type is any
  type with \<open>0\<close> (the literal \<open>0.0\<close>), \<open>+\<close> and \<open>*\<close>, and no law is assumed of them, so
  what is proved holds of IEEE-754 arithmetic as of any other. Concrete runs use
  small integers in \<open>real\<close>, on which binary64 computes the same sums and products.
\<close>

record 'a Matrix =
  rows :: size_t
  cols :: size_t
  data :: "'a list"

text \<open>\<open>Matrix::Matrix(size_t, size_t)\<close>: the member initialisers run before the body's check.\<close>

definition Matrix_ctor :: "allocator \<Rightarrow> size_t \<Rightarrow> size_t \<Rightarrow> ('a::zero) Matrix result" where
  "Matrix_ctor alloc r c =
     (if \<not> vector_alloc alloc (unat (r * c)) then Inl (Throw bad_alloc)
      else if r = 0 \<or> c = 0 then Inl InvalidDimension
      else Inr \<lparr>rows = r, cols = c, data = replicate (unat (r * c)) 0\<rparr>)"

text \<open>\<open>Matrix::Matrix(size_t, size_t, const std::vector<double>&)\<close>: \<open>data_\<close> is a copy.\<close>

definition Matrix_ctor_data :: "allocator \<Rightarrow> size_t \<Rightarrow> size_t \<Rightarrow> 'a list \<Rightarrow> 'a Matrix result" where
  "Matrix_ctor_data alloc r c d =
     (if \<not> vector_alloc alloc (length d) then Inl (Throw bad_alloc)
      else if r = 0 \<or> c = 0 then Inl InvalidDimension
      else if vsize d \<noteq> r * c then Inl SizeMismatch
      else Inr \<lparr>rows = r, cols = c, data = d\<rparr>)"

text \<open>
  \<open>Matrix::at\<close> returns a reference into \<open>data_\<close>. The read-write variant (\<open>at_mut\<close>)
  is modelled by the position it refers to, read with \<open>deref\<close> and assigned with \<open>assign\<close>; the read-only
  variant by the value there. \<open>data_[i]\<close> is unchecked.
\<close>

definition at_mut :: "'a Matrix \<Rightarrow> size_t \<Rightarrow> size_t \<Rightarrow> nat result" where
  "at_mut m row col =
     (if row \<ge> rows m \<or> col \<ge> cols m then Inl IndexOutOfRange
      else vec_ref (data m) (row * cols m + col))"

definition at_const :: "'a Matrix \<Rightarrow> size_t \<Rightarrow> size_t \<Rightarrow> 'a result" where
  "at_const m row col =
     (if row \<ge> rows m \<or> col \<ge> cols m then Inl IndexOutOfRange
      else vec_read (data m) (row * cols m + col))"

definition deref :: "'a Matrix \<Rightarrow> nat \<Rightarrow> 'a" where
  "deref m l = data m ! l"

definition assign :: "'a Matrix \<Rightarrow> nat \<Rightarrow> 'a \<Rightarrow> 'a Matrix" where
  "assign m l v = m\<lparr>data := (data m)[l := v]\<rparr>"

text \<open>\<open>Matrix::operator+\<close>\<close>

definition operator_plus :: "allocator \<Rightarrow> ('a::{zero,plus}) Matrix \<Rightarrow> 'a Matrix \<Rightarrow> 'a Matrix result" where
  "operator_plus alloc this other =
     (if rows this \<noteq> rows other \<or> cols this \<noteq> cols other then Inl DimensionMismatch_add
      else bind (Matrix_ctor alloc (rows this) (cols this)) (\<lambda>result.
        for_loop 0 (vsize (data this)) (\<lambda>i result.
          bind (vec_read (data this) i) (\<lambda>x.
          bind (vec_read (data other) i) (\<lambda>y.
          bind (vec_write (data result) i (x + y)) (\<lambda>d.
          Inr (result\<lparr>data := d\<rparr>))))) result))"

text \<open>\<open>Matrix::operator*\<close>\<close>

definition operator_times :: "allocator \<Rightarrow> ('a::{zero,plus,times}) Matrix \<Rightarrow> 'a Matrix \<Rightarrow> 'a Matrix result" where
  "operator_times alloc this other =
     (if cols this \<noteq> rows other then Inl DimensionMismatch_mul
      else bind (Matrix_ctor alloc (rows this) (cols other)) (\<lambda>result.
        for_loop 0 (rows this) (\<lambda>i result.
          for_loop 0 (cols other) (\<lambda>j result.
            bind (for_loop 0 (cols this) (\<lambda>k sum.
                    bind (at_const this i k) (\<lambda>x.
                    bind (at_const other k j) (\<lambda>y.
                    Inr (sum + x * y)))) 0) (\<lambda>sum.
            bind (at_mut result i j) (\<lambda>l.
            Inr (assign result l sum)))) result) result))"

text \<open>\<open>Matrix::transpose\<close>\<close>

definition transpose_matrix :: "allocator \<Rightarrow> ('a::zero) Matrix \<Rightarrow> 'a Matrix result" where
  "transpose_matrix alloc this =
     bind (Matrix_ctor alloc (cols this) (rows this)) (\<lambda>result.
       for_loop 0 (rows this) (\<lambda>i result.
         for_loop 0 (cols this) (\<lambda>j result.
           bind (at_const this i j) (\<lambda>x.
           bind (at_mut result j i) (\<lambda>l.
           Inr (assign result l x)))) result) result)"

section \<open>The C interface\<close>

text \<open>
  A handle is a \<open>void*\<close>: null, or pointing to a live \<open>Matrix\<close>, which the model
  identifies with the matrix itself. Dereferencing null is undefined. \<open>catch (...)\<close>
  turns every exception into the null handle; it cannot catch undefined behaviour.
\<close>

type_synonym 'a handle = "'a Matrix option"

definition star :: "'a handle \<Rightarrow> 'a Matrix result" where
  "star h = (case h of None \<Rightarrow> Inl Undefined | Some m \<Rightarrow> Inr m)"

definition new_Matrix :: "allocator \<Rightarrow> 'a Matrix result \<Rightarrow> 'a Matrix result" where
  "new_Matrix alloc init = (if alloc Object then init else Inl (Throw bad_alloc))"

definition catch_all :: "'a Matrix result \<Rightarrow> 'a handle result" where
  "catch_all r =
     (case r of Inl (Throw e) \<Rightarrow> Inr None | Inl Undefined \<Rightarrow> Inl Undefined | Inr m \<Rightarrow> Inr (Some m))"

definition matrix_create :: "allocator \<Rightarrow> size_t \<Rightarrow> size_t \<Rightarrow> ('a::zero) handle result" where
  "matrix_create alloc r c = catch_all (new_Matrix alloc (Matrix_ctor alloc r c))"

definition matrix_multiply :: "allocator \<Rightarrow> ('a::{zero,plus,times}) handle \<Rightarrow> 'a handle \<Rightarrow> 'a handle result" where
  "matrix_multiply alloc a b =
     catch_all (bind (star a) (\<lambda>ma. bind (star b) (\<lambda>mb.
       bind (operator_times alloc ma mb) (\<lambda>result. new_Matrix alloc (Inr result)))))"

definition matrix_add :: "allocator \<Rightarrow> ('a::{zero,plus}) handle \<Rightarrow> 'a handle \<Rightarrow> 'a handle result" where
  "matrix_add alloc a b =
     catch_all (bind (star a) (\<lambda>ma. bind (star b) (\<lambda>mb.
       bind (operator_plus alloc ma mb) (\<lambda>result. new_Matrix alloc (Inr result)))))"

definition matrix_transpose :: "allocator \<Rightarrow> ('a::zero) handle \<Rightarrow> 'a handle result" where
  "matrix_transpose alloc matrix =
     catch_all (bind (star matrix) (\<lambda>m.
       bind (transpose_matrix alloc m) (\<lambda>result. new_Matrix alloc (Inr result))))"

section \<open>The invariant of the data model\<close>

text \<open>
  The specification's invariant, with the product taken in the natural numbers:
  both dimensions positive and one stored element for each position. The length of a
  \<open>std::vector\<close> is itself a \<open>size_t\<close>.
\<close>

definition valid :: "'a Matrix \<Rightarrow> bool" where
  "valid m \<longleftrightarrow> rows m \<noteq> 0 \<and> cols m \<noteq> 0
     \<and> length (data m) = unat (rows m) * unat (cols m) \<and> length (data m) < 2 ^ 64"

text \<open>What the code maintains: the same, with the product taken in \<open>size_t\<close>.\<close>

definition valid_mod :: "'a Matrix \<Rightarrow> bool" where
  "valid_mod m \<longleftrightarrow> rows m \<noteq> 0 \<and> cols m \<noteq> 0 \<and> length (data m) = unat (rows m * cols m)"

text \<open>Two states of one Matrix object: rows, cols and the length of the buffer agree.\<close>

definition same_shape :: "'a Matrix \<Rightarrow> 'a Matrix \<Rightarrow> bool" where
  "same_shape s t \<longleftrightarrow> rows t = rows s \<and> cols t = cols s \<and> length (data t) = length (data s)"

text \<open>
  The specification's reading of the buffer: the element at logical position \<open>(r, c)\<close>
  is stored at index \<open>r * cols + c\<close> (row-major), positions counted in the naturals.
\<close>

definition entry :: "'a Matrix \<Rightarrow> nat \<Rightarrow> nat \<Rightarrow> 'a" where
  "entry m r c = data m ! (r * unat (cols m) + c)"

text \<open>
  The specification's matrix product at \<open>(i, j)\<close>: the terms \<open>a[i][k] * b[k][j]\<close> added
  to 0.0 one after the other, \<open>k\<close> ascending; no law of the arithmetic is used.
\<close>

definition dot :: "('a::{zero,plus,times}) Matrix \<Rightarrow> 'a Matrix \<Rightarrow> nat \<Rightarrow> nat \<Rightarrow> 'a" where
  "dot a b i j = foldl (\<lambda>sum k. sum + entry a i k * entry b k j) 0 [0..<unat (cols a)]"

section \<open>Loops, indices and the sequencing of calls\<close>

lemma bind_Inr: "bind (Inr x) f = f x"
  by (simp add: bind_def)

lemma bind_Inl: "bind (Inl e) f = Inl e"
  by (simp add: bind_def)

lemma bind_eq_Inr: "bind r f = Inr y \<Longrightarrow> \<exists>x. r = Inr x \<and> f x = Inr y"
  by (cases r) (simp_all add: bind_def)

lemma bind_eq_Throw:
  "bind r f = Inl (Throw e) \<Longrightarrow> r = Inl (Throw e) \<or> (\<exists>x. r = Inr x \<and> f x = Inl (Throw e))"
  by (cases r) (simp_all add: bind_def)

lemma unat_succ_less: "(i :: size_t) < n \<Longrightarrow> unat (i + 1) = Suc (unat i)"
  by (metis (no_types, lifting) Suc_eq_plus1 add.commute add_cancel_left_right inc_i
        inc_le unat_plus_simple unsigned_0 unsigned_1 word_gt_0)

text \<open>Total correctness of a counted loop: an invariant indexed by the iterations done.\<close>

lemma for_loop_total:
  assumes "P (unat i) s"
    and "i \<le> n"
    and "\<And>k s. unat i \<le> k \<Longrightarrow> k < unat n \<Longrightarrow> P k s \<Longrightarrow> \<exists>s'. body (of_nat k) s = Inr s' \<and> P (Suc k) s'"
  shows "\<exists>s'. for_loop i n body s = Inr s' \<and> P (unat n) s'"
  using assms
proof (induction i n body s rule: for_loop.induct)
  case (1 i n body s)
  show ?case
  proof (cases "i < n")
    case True
    then have lt: "unat i < unat n" by (simp add: word_less_nat_alt)
    from "1.prems"(3)[OF le_refl lt "1.prems"(1)]
    obtain s1 where s1: "body i s = Inr s1" "P (Suc (unat i)) s1" by auto
    have su: "unat (i + 1) = Suc (unat i)" by (rule unat_succ_less[OF True])
    have le: "i + 1 \<le> n" using True by (simp add: inc_le)
    have "\<exists>s'. for_loop (i + 1) n body s1 = Inr s' \<and> P (unat n) s'"
    proof (rule "1.IH"[OF True s1(1)])
      show "P (unat (i + 1)) s1" using s1(2) su by simp
      show "i + 1 \<le> n" by (rule le)
      fix k s assume "unat (i + 1) \<le> k" "k < unat n" "P k s"
      then show "\<exists>s'. body (word_of_nat k) s = Inr s' \<and> P (Suc k) s'"
        using "1.prems"(3)[of k s] su by simp
    qed
    then show ?thesis
      using True s1(1) by (subst for_loop.simps) simp
  next
    case False
    with "1.prems"(2) have "i = n" by simp
    then show ?thesis using "1.prems"(1) by (subst for_loop.simps) simp
  qed
qed

text \<open>What every body keeps, a loop that returns has kept.\<close>

lemma for_loop_preserves:
  assumes "for_loop i n body s = Inr s'"
    and "Q s"
    and "\<And>k s s'. Q s \<Longrightarrow> body k s = Inr s' \<Longrightarrow> Q s'"
  shows "Q s'"
  using assms
proof (induction i n body s rule: for_loop.induct)
  case (1 i n body s)
  show ?case
  proof (cases "i < n")
    case True
    from "1.prems"(1) True obtain s1 where s1: "body i s = Inr s1" "for_loop (i + 1) n body s1 = Inr s'"
      by (subst (asm) for_loop.simps) (auto split: sum.splits)
    show ?thesis
      by (rule "1.IH"[OF True s1(1) s1(2) "1.prems"(3)[OF "1.prems"(2) s1(1)] "1.prems"(3)])
  next
    case False
    with "1.prems"(1) have "s' = s" by (subst (asm) for_loop.simps) simp
    then show ?thesis using "1.prems"(2) by simp
  qed
qed

text \<open>A loop that fails has a body that fails, in a state the bodies before it led to.\<close>

lemma for_loop_failure:
  assumes "for_loop i n body s = Inl f"
    and "Q s"
    and "\<And>k t t'. k < n \<Longrightarrow> Q t \<Longrightarrow> body k t = Inr t' \<Longrightarrow> Q t'"
  shows "\<exists>k t. k < n \<and> Q t \<and> body k t = Inl f"
  using assms
proof (induction i n body s rule: for_loop.induct)
  case (1 i n body s)
  from "1.prems"(1) have lt: "i < n"
    by (subst (asm) for_loop.simps) (auto split: if_splits)
  show ?case
  proof (cases "body i s")
    case (Inl e)
    with "1.prems"(1) lt have "e = f" by (subst (asm) for_loop.simps) simp
    with Inl lt "1.prems"(2) show ?thesis by blast
  next
    case (Inr s1)
    with "1.prems"(1) lt have l: "for_loop (i + 1) n body s1 = Inl f"
      by (subst (asm) for_loop.simps) simp
    have q: "Q s1" by (rule "1.prems"(3)[OF lt "1.prems"(2) Inr])
    show ?thesis
      by (rule "1.IH"[OF lt Inr l q]) (rule "1.prems"(3))
  qed
qed

lemma index_bound: "(i::nat) < R \<Longrightarrow> j < C \<Longrightarrow> i * C + j < R * C"
proof -
  assume a: "i < R" "j < C"
  then have "i * C + j < i * C + C" by simp
  also have "\<dots> = Suc i * C" by simp
  also have "\<dots> \<le> R * C" using a(1) by (intro mult_le_mono1) simp
  finally show ?thesis .
qed

lemma index_inj:
  assumes "(i::nat) < R" "i' < R" "j * R + i = j' * R + i'"
  shows "i = i' \<and> j = j'"
proof -
  have "(j * R + i) mod R = i" "(j' * R + i') mod R = i'" using assms(1,2) by simp_all
  then have i: "i = i'" using assms(3) by simp
  have "(j * R + i) div R = j" "(j' * R + i') div R = j'" using assms(1,2) by simp_all
  then have "j = j'" using assms(3) by simp
  with i show ?thesis by simp
qed

lemma unat_index:
  assumes "i < unat (R :: size_t)" "j < unat (C :: size_t)" "unat R * unat C < 2 ^ 64"
  shows "unat (of_nat i * C + of_nat j :: size_t) = i * unat C + j"
proof -
  have b: "i * unat C + j < unat R * unat C" by (rule index_bound[OF assms(1,2)])
  then have lt: "i * unat C + j < 2 ^ 64" using assms(3) by simp
  have "of_nat i * C + of_nat j = (of_nat (i * unat C + j) :: size_t)" by simp
  then show ?thesis using lt by (simp only: unat_of_nat) simp
qed

lemma of_nat_less_unat: "i < unat (R :: size_t) \<Longrightarrow> (of_nat i :: size_t) < R"
  by (metis le_unat_uoi less_imp_le word_less_nat_alt)

lemma unat_vsize: "length xs < 2 ^ 64 \<Longrightarrow> unat (vsize xs) = length xs"
  by (simp add: vsize_def unat_of_nat)

lemma vec_read_of_nat:
  "k < length xs \<Longrightarrow> length xs < 2 ^ 64 \<Longrightarrow> vec_read xs (of_nat k) = Inr (xs ! k)"
  by (simp add: vec_read_def unat_of_nat)

lemma vec_write_of_nat:
  "k < length xs \<Longrightarrow> length xs < 2 ^ 64 \<Longrightarrow> vec_write xs (of_nat k) v = Inr (xs[k := v])"
  by (simp add: vec_write_def unat_of_nat)

section \<open>Element access\<close>

lemma valid_count: "valid m \<Longrightarrow> unat (rows m * cols m) = length (data m)"
  by (simp add: valid_def unat_word_ariths)

lemma valid_imp_valid_mod: "valid m \<Longrightarrow> valid_mod m"
  by (simp add: valid_mod_def valid_count) (simp add: valid_def)

lemma valid_mod_imp_valid:
  "valid_mod m \<Longrightarrow> unat (rows m) * unat (cols m) < 2 ^ 64 \<Longrightarrow> valid m"
  by (simp add: valid_mod_def valid_def unat_word_ariths)

lemma at_const_valid:
  assumes "valid m" "i < unat (rows m)" "j < unat (cols m)"
  shows "at_const m (of_nat i) (of_nat j) = Inr (entry m i j)"
proof -
  have 1: "(of_nat i :: size_t) < rows m" "(of_nat j :: size_t) < cols m"
    using assms(2,3) by (simp_all add: of_nat_less_unat)
  have 2: "unat (of_nat i * cols m + of_nat j :: size_t) = i * unat (cols m) + j"
    using assms by (intro unat_index) (auto simp: valid_def)
  have 3: "i * unat (cols m) + j < length (data m)"
    using assms index_bound[OF assms(2,3)] by (simp add: valid_def)
  show ?thesis using 1 2 3 by (simp add: at_const_def vec_read_def entry_def not_le[symmetric])
qed

lemma at_mut_valid:
  assumes "valid m" "i < unat (rows m)" "j < unat (cols m)"
  shows "at_mut m (of_nat i) (of_nat j) = Inr (i * unat (cols m) + j)"
proof -
  have 1: "(of_nat i :: size_t) < rows m" "(of_nat j :: size_t) < cols m"
    using assms(2,3) by (simp_all add: of_nat_less_unat)
  have 2: "unat (of_nat i * cols m + of_nat j :: size_t) = i * unat (cols m) + j"
    using assms by (intro unat_index) (auto simp: valid_def)
  have 3: "i * unat (cols m) + j < length (data m)"
    using assms index_bound[OF assms(2,3)] by (simp add: valid_def)
  show ?thesis using 1 2 3 by (simp add: at_mut_def vec_ref_def not_le[symmetric])
qed

lemma at_const_word:
  assumes "valid m" "r < rows m" "c < cols m"
  shows "at_const m r c = Inr (entry m (unat r) (unat c))"
  using at_const_valid[OF assms(1), of "unat r" "unat c"] assms(2,3)
  by (simp add: word_less_nat_alt)

lemma at_mut_word:
  assumes "valid m" "r < rows m" "c < cols m"
  shows "at_mut m r c = Inr (unat r * unat (cols m) + unat c)"
  using at_mut_valid[OF assms(1), of "unat r" "unat c"] assms(2,3)
  by (simp add: word_less_nat_alt)

lemma at_const_out_of_range:
  "at_const m r c = Inl IndexOutOfRange \<longleftrightarrow> r \<ge> rows m \<or> c \<ge> cols m"
  by (simp add: at_const_def vec_read_def IndexOutOfRange_def)

lemma at_mut_out_of_range:
  "at_mut m r c = Inl IndexOutOfRange \<longleftrightarrow> r \<ge> rows m \<or> c \<ge> cols m"
  by (simp add: at_mut_def vec_ref_def IndexOutOfRange_def)

lemma assign_same: "l < length (data s) \<Longrightarrow> data (assign s l v) ! l = v"
  by (simp add: assign_def)

lemma assign_other: "l' \<noteq> l \<Longrightarrow> data (assign s l v) ! l' = data s ! l'"
  by (simp add: assign_def)

lemma assign_shape:
  "rows (assign s l v) = rows s" "cols (assign s l v) = cols s"
  "length (data (assign s l v)) = length (data s)"
  by (simp_all add: assign_def)

text \<open>
  C6, as the code has it. \<open>Matrix::at\<close>, in the read-only and in the read-write
  variant, fails with IndexOutOfRange exactly when \<open>row \<ge> rows\<close> or \<open>col \<ge> cols\<close>: the
  check is the first thing either variant does, on every call. A position in bounds
  is answered by the element stored at index \<open>row * cols + col\<close>, computed in
  \<open>size_t\<close>, when the buffer has that index, and is undefined behaviour when it has
  not. On a Matrix that satisfies the invariant with the product in the naturals
  the buffer has it and the index is \<open>row * cols + col\<close> itself: the read-write
  variant refers to that index of the buffer, the read-only variant reads it.
\<close>

theorem at_bounds_checked:
  "(at_const m r c = Inl IndexOutOfRange \<longleftrightarrow> r \<ge> rows m \<or> c \<ge> cols m)
   \<and> (at_mut m r c = Inl IndexOutOfRange \<longleftrightarrow> r \<ge> rows m \<or> c \<ge> cols m)
   \<and> (valid m \<and> r < rows m \<and> c < cols m \<longrightarrow>
        unat r * unat (cols m) + unat c < length (data m)
        \<and> at_mut m r c = Inr (unat r * unat (cols m) + unat c)
        \<and> at_const m r c = Inr (data m ! (unat r * unat (cols m) + unat c))
        \<and> deref m (unat r * unat (cols m) + unat c) = data m ! (unat r * unat (cols m) + unat c))
   \<and> (r < rows m \<and> c < cols m \<and> unat (r * cols m + c) < length (data m) \<longrightarrow>
        at_mut m r c = Inr (unat (r * cols m + c))
        \<and> at_const m r c = Inr (data m ! unat (r * cols m + c)))
   \<and> (r < rows m \<and> c < cols m \<and> length (data m) \<le> unat (r * cols m + c) \<longrightarrow>
        at_mut m r c = Inl Undefined \<and> at_const m r c = Inl Undefined)"
proof -
  have 1: "at_const m r c = Inl IndexOutOfRange \<longleftrightarrow> r \<ge> rows m \<or> c \<ge> cols m"
    by (rule at_const_out_of_range)
  have 2: "at_mut m r c = Inl IndexOutOfRange \<longleftrightarrow> r \<ge> rows m \<or> c \<ge> cols m"
    by (rule at_mut_out_of_range)
  have 3: "valid m \<and> r < rows m \<and> c < cols m \<longrightarrow>
        unat r * unat (cols m) + unat c < length (data m)
        \<and> at_mut m r c = Inr (unat r * unat (cols m) + unat c)
        \<and> at_const m r c = Inr (data m ! (unat r * unat (cols m) + unat c))
        \<and> deref m (unat r * unat (cols m) + unat c) = data m ! (unat r * unat (cols m) + unat c)"
  proof (intro impI conjI)
    assume a: "valid m \<and> r < rows m \<and> c < cols m"
    then have rc: "unat r < unat (rows m)" "unat c < unat (cols m)"
      by (simp_all add: word_less_nat_alt)
    show "unat r * unat (cols m) + unat c < length (data m)"
      using index_bound[OF rc] a by (simp add: valid_def)
    show "at_mut m r c = Inr (unat r * unat (cols m) + unat c)"
      using a by (simp add: at_mut_word)
    show "at_const m r c = Inr (data m ! (unat r * unat (cols m) + unat c))"
      using a by (simp add: at_const_word entry_def)
    show "deref m (unat r * unat (cols m) + unat c) = data m ! (unat r * unat (cols m) + unat c)"
      by (simp add: deref_def)
  qed
  have 4: "r < rows m \<and> c < cols m \<and> unat (r * cols m + c) < length (data m) \<longrightarrow>
        at_mut m r c = Inr (unat (r * cols m + c))
        \<and> at_const m r c = Inr (data m ! unat (r * cols m + c))"
    by (simp add: at_mut_def at_const_def vec_ref_def vec_read_def not_le[symmetric])
  have 5: "r < rows m \<and> c < cols m \<and> length (data m) \<le> unat (r * cols m + c) \<longrightarrow>
        at_mut m r c = Inl Undefined \<and> at_const m r c = Inl Undefined"
    by (simp add: at_mut_def at_const_def vec_ref_def vec_read_def not_le[symmetric])
  show ?thesis
    by (intro conjI) (fact 1 2 3 4 5)+
qed

theorem at_bounds_checked_witness:
  "valid \<lparr>rows = 2, cols = 2, data = [1, 2, 3, 4 :: real]\<rparr>
   \<and> at_const \<lparr>rows = 2, cols = 2, data = [1, 2, 3, 4 :: real]\<rparr> 1 0 = Inr 3
   \<and> at_mut \<lparr>rows = 2, cols = 2, data = [1, 2, 3, 4 :: real]\<rparr> 1 0 = Inr 2
   \<and> at_const \<lparr>rows = 2, cols = 2, data = [1, 2, 3, 4 :: real]\<rparr> 2 0 = Inl IndexOutOfRange
   \<and> at_mut \<lparr>rows = 2, cols = 2, data = [1, 2, 3, 4 :: real]\<rparr> 0 2 = Inl IndexOutOfRange
   \<and> at_const \<lparr>rows = 2 ^ 33, cols = 2 ^ 31, data = ([] :: real list)\<rparr> 1 1 = Inl Undefined
   \<and> at_mut \<lparr>rows = 2 ^ 33, cols = 2 ^ 31, data = ([] :: real list)\<rparr> 1 1 = Inl Undefined"
proof -
  let ?m = "\<lparr>rows = 2, cols = 2, data = [1, 2, 3, 4 :: real]\<rparr>"
  let ?e = "\<lparr>rows = 2 ^ 33, cols = 2 ^ 31, data = ([] :: real list)\<rparr>"
  have v: "valid ?m" by (simp add: valid_def)
  have b: "(1 :: size_t) < rows ?m" "(0 :: size_t) < cols ?m" "(2 :: size_t) \<ge> rows ?m" "(2 :: size_t) \<ge> cols ?m"
    by (simp_all add: word_less_nat_alt)
  have e: "(1 :: size_t) < rows ?e" "(1 :: size_t) < cols ?e"
    by (simp_all add: word_less_nat_alt)
  have u: "at_const ?e 1 1 = Inl Undefined" "at_mut ?e 1 1 = Inl Undefined"
    using e at_bounds_checked[of ?e 1 1] by simp_all
  show ?thesis
    using v b u at_bounds_checked[of ?m 1 0] at_bounds_checked[of ?m 2 0] at_bounds_checked[of ?m 0 2]
    by simp
qed

text \<open>
  The claim C6 as written, for every Matrix, fails on one the constructor returns:
  \<open>Matrix(2^32, 2^32)\<close> has an empty buffer, position \<open>(0, 0)\<close> is in bounds, and both
  variants of \<open>at\<close> index the empty buffer there: no element is returned.
\<close>

theorem at_in_bounds_outside_buffer:
  "(Matrix_ctor grant_all (2 ^ 32) (2 ^ 32) :: real Matrix result)
     = Inr \<lparr>rows = 2 ^ 32, cols = 2 ^ 32, data = []\<rparr>
   \<and> (0 :: size_t) < rows \<lparr>rows = 2 ^ 32, cols = 2 ^ 32, data = ([] :: real list)\<rparr>
   \<and> (0 :: size_t) < cols \<lparr>rows = 2 ^ 32, cols = 2 ^ 32, data = ([] :: real list)\<rparr>
   \<and> at_const \<lparr>rows = 2 ^ 32, cols = 2 ^ 32, data = ([] :: real list)\<rparr> 0 0 = Inl Undefined
   \<and> at_mut \<lparr>rows = 2 ^ 32, cols = 2 ^ 32, data = ([] :: real list)\<rparr> 0 0 = Inl Undefined"
  by (simp add: Matrix_ctor_def vector_alloc_def at_const_def at_mut_def vec_read_def vec_ref_def)

section \<open>Construction\<close>

lemma Matrix_ctor_InvalidDimension:
  "Matrix_ctor alloc r c = Inl InvalidDimension \<longleftrightarrow> r = 0 \<or> c = 0"
  by (auto simp: Matrix_ctor_def InvalidDimension_def vector_alloc_def)

lemma Matrix_ctor_refused:
  "\<not> vector_alloc alloc (unat (r * c)) \<Longrightarrow> Matrix_ctor alloc r c = Inl (Throw bad_alloc)"
  by (simp add: Matrix_ctor_def)

lemma Matrix_ctor_valid_mod:
  "Matrix_ctor alloc r c = Inr m \<Longrightarrow> valid_mod m \<and> rows m = r \<and> cols m = c"
  by (auto simp: Matrix_ctor_def valid_mod_def split: if_splits)

lemma Matrix_ctor_zero:
  assumes "r \<noteq> 0" "c \<noteq> 0" "unat r * unat c < 2 ^ 64" "vector_alloc alloc (unat r * unat c)"
  shows "\<exists>m :: ('a::zero) Matrix. Matrix_ctor alloc r c = Inr m \<and> rows m = r \<and> cols m = c \<and> valid m
           \<and> (\<forall>i j. i < r \<and> j < c \<longrightarrow> at_const m i j = Inr 0)"
proof -
  let ?m = "\<lparr>rows = r, cols = c, data = replicate (unat r * unat c) (0::'a)\<rparr>"
  have cnt: "unat (r * c) = unat r * unat c" using assms(3) by (simp add: unat_word_ariths)
  have ctor: "Matrix_ctor alloc r c = Inr ?m" using assms cnt by (simp add: Matrix_ctor_def)
  have v: "valid ?m" using assms by (simp add: valid_def)
  have "at_const ?m i j = Inr 0" if "i < r" "j < c" for i j
  proof -
    have "unat i < unat r" "unat j < unat c" using that by (simp_all add: word_less_nat_alt)
    from index_bound[OF this] have "entry ?m (unat i) (unat j) = 0" by (simp add: entry_def)
    then show ?thesis using at_const_word[OF v, of i j] that by simp
  qed
  then show ?thesis using ctor v by auto
qed

text \<open>
  C4, as the code has it. \<open>Matrix(rows, cols)\<close> fails with InvalidDimension exactly when
  \<open>rows = 0\<close> or \<open>cols = 0\<close>. Otherwise, when the product \<open>rows * cols\<close> is below \<open>2^64\<close>
  and the buffer of that many elements is granted, it yields a Matrix of shape
  \<open>(rows, cols)\<close> that satisfies the invariant and whose every element reads as 0.0;
  when the buffer is refused the constructor throws \<open>bad_alloc\<close>.
\<close>

theorem Matrix_ctor_zero_filled:
  "((Matrix_ctor alloc r c :: ('a::zero) Matrix result) = Inl InvalidDimension \<longleftrightarrow> r = 0 \<or> c = 0)
   \<and> (r \<noteq> 0 \<and> c \<noteq> 0 \<and> unat r * unat c < 2 ^ 64 \<and> vector_alloc alloc (unat r * unat c) \<longrightarrow>
        (\<exists>m. (Matrix_ctor alloc r c :: 'a Matrix result) = Inr m \<and> rows m = r \<and> cols m = c
           \<and> valid m \<and> (\<forall>i j. i < r \<and> j < c \<longrightarrow> at_const m i j = Inr 0)))
   \<and> (\<not> vector_alloc alloc (unat (r * c)) \<longrightarrow>
        (Matrix_ctor alloc r c :: 'a Matrix result) = Inl (Throw bad_alloc))"
  using Matrix_ctor_InvalidDimension[of alloc r c] Matrix_ctor_zero[of r c alloc]
    Matrix_ctor_refused[of alloc r c]
  by blast

theorem Matrix_ctor_zero_filled_witness:
  "(\<exists>m. Matrix_ctor grant_all 2 3 = Inr m \<and> rows m = 2 \<and> cols m = 3 \<and> valid m
      \<and> at_const m 1 2 = Inr (0 :: real))
   \<and> (Matrix_ctor grant_all 0 5 :: real Matrix result) = Inl InvalidDimension
   \<and> (Matrix_ctor grant_none 2 3 :: real Matrix result) = Inl (Throw bad_alloc)"
proof -
  have b: "(1 :: size_t) < 2" "(2 :: size_t) < 3" by (simp_all add: word_less_nat_alt)
  have "\<exists>m. Matrix_ctor grant_all 2 3 = Inr m \<and> rows m = 2 \<and> cols m = 3 \<and> valid m
      \<and> at_const m 1 2 = Inr (0 :: real)"
  proof -
    from Matrix_ctor_zero_filled[of grant_all 2 3, where 'a = real]
    obtain m :: "real Matrix" where m: "Matrix_ctor grant_all 2 3 = Inr m" "rows m = 2" "cols m = 3"
      "valid m" "\<forall>i j. i < 2 \<and> j < 3 \<longrightarrow> at_const m i j = Inr 0"
      by (auto simp: vector_alloc_def)
    from m(5) b have "at_const m 1 2 = Inr 0" by blast
    with m(1-4) show ?thesis by blast
  qed
  moreover have "(Matrix_ctor grant_all 0 5 :: real Matrix result) = Inl InvalidDimension"
    using Matrix_ctor_zero_filled[of grant_all 0 5, where 'a = real] by simp
  moreover have "(Matrix_ctor grant_none 2 3 :: real Matrix result) = Inl (Throw bad_alloc)"
    using Matrix_ctor_zero_filled[of grant_none 2 3, where 'a = real] by (simp add: vector_alloc_def)
  ultimately show ?thesis by simp
qed

text \<open>
  The claim C4 as written fails where the product overflows: \<open>Matrix(2^32, 2^32)\<close> has
  non-zero dimensions, is constructed with an empty buffer (\<open>2^64\<close> wraps to 0), and its
  element \<open>(0, 0)\<close> passes the bounds check and reads outside the buffer.
\<close>

theorem Matrix_ctor_overflow_no_elements:
  "(Matrix_ctor grant_all (2 ^ 32) (2 ^ 32) :: real Matrix result)
     = Inr \<lparr>rows = 2 ^ 32, cols = 2 ^ 32, data = []\<rparr>
   \<and> (2 ^ 32 :: size_t) \<noteq> 0
   \<and> at_const \<lparr>rows = 2 ^ 32, cols = 2 ^ 32, data = ([] :: real list)\<rparr> 0 0 = Inl Undefined
   \<and> at_const \<lparr>rows = 2 ^ 32, cols = 2 ^ 32, data = ([] :: real list)\<rparr> 0 0 \<noteq> Inr 0"
  by (simp add: Matrix_ctor_def vector_alloc_def at_const_def vec_read_def)

lemma vsize_eq_iff: "length d < 2 ^ 64 \<Longrightarrow> vsize d = w \<longleftrightarrow> length d = unat w"
proof
  assume "length d < 2 ^ 64" "vsize d = w"
  then show "length d = unat w" using unat_vsize[of d] by simp
next
  assume "length d = unat w"
  then show "vsize d = w" by (simp add: vsize_def)
qed

lemma Matrix_ctor_data_valid_mod:
  "length d < 2 ^ 64 \<Longrightarrow> Matrix_ctor_data alloc r c d = Inr m \<Longrightarrow>
   valid_mod m \<and> rows m = r \<and> cols m = c \<and> data m = d"
  by (auto simp: Matrix_ctor_data_def valid_mod_def vsize_eq_iff split: if_splits)

text \<open>
  The matrices the constructors yield are those with non-zero dimensions and a
  buffer of \<open>rows * cols\<close> elements, the product taken in \<open>size_t\<close>.
\<close>

lemma valid_mod_iff_constructed:
  "valid_mod m \<longleftrightarrow>
     length (data m) < 2 ^ 64 \<and> Matrix_ctor_data grant_all (rows m) (cols m) (data m) = Inr m"
proof
  assume v: "valid_mod m"
  then have l: "length (data m) = unat (rows m * cols m)" by (simp add: valid_mod_def)
  then have "length (data m) < 2 ^ 64" using unsigned_less[of "rows m * cols m", where 'a = nat] by simp
  moreover have "vsize (data m) = rows m * cols m" using l by (simp add: vsize_def)
  ultimately show "length (data m) < 2 ^ 64 \<and> Matrix_ctor_data grant_all (rows m) (cols m) (data m) = Inr m"
    using v by (simp add: Matrix_ctor_data_def vector_alloc_def valid_mod_def)
next
  assume "length (data m) < 2 ^ 64 \<and> Matrix_ctor_data grant_all (rows m) (cols m) (data m) = Inr m"
  then show "valid_mod m" using Matrix_ctor_data_valid_mod[of "data m" grant_all "rows m" "cols m" m] by simp
qed

text \<open>
  C5, as the code has it. Provided the copy of \<open>data\<close> is granted,
  \<open>Matrix(rows, cols, data)\<close> fails with InvalidDimension when \<open>rows = 0\<close> or \<open>cols = 0\<close>;
  otherwise it fails with SizeMismatch when the length of \<open>data\<close> differs from
  \<open>rows * cols\<close> taken modulo \<open>2^64\<close>, and else yields the Matrix with these rows, cols
  and data. When the length of \<open>data\<close> is the product in the naturals, that Matrix
  satisfies the invariant and its element at \<open>(r, c)\<close> is \<open>data[r * cols + c]\<close>.
\<close>

theorem Matrix_ctor_data_row_major:
  assumes "vector_alloc alloc (length d)" and "length d < 2 ^ 64"
  shows "(r = 0 \<or> c = 0 \<longrightarrow> Matrix_ctor_data alloc r c d = Inl InvalidDimension)
   \<and> (r \<noteq> 0 \<and> c \<noteq> 0 \<and> length d \<noteq> unat (r * c) \<longrightarrow>
        Matrix_ctor_data alloc r c d = Inl SizeMismatch)
   \<and> (r \<noteq> 0 \<and> c \<noteq> 0 \<and> length d = unat (r * c) \<longrightarrow>
        Matrix_ctor_data alloc r c d = Inr \<lparr>rows = r, cols = c, data = d\<rparr>)
   \<and> (r \<noteq> 0 \<and> c \<noteq> 0 \<and> length d = unat r * unat c \<longrightarrow>
        Matrix_ctor_data alloc r c d = Inr \<lparr>rows = r, cols = c, data = d\<rparr>
        \<and> valid \<lparr>rows = r, cols = c, data = d\<rparr>
        \<and> (\<forall>i j. i < r \<and> j < c \<longrightarrow>
              at_const \<lparr>rows = r, cols = c, data = d\<rparr> i j = Inr (d ! (unat i * unat c + unat j))))"
proof (intro conjI impI)
  show "Matrix_ctor_data alloc r c d = Inl InvalidDimension" if "r = 0 \<or> c = 0"
    using that assms(1) by (auto simp: Matrix_ctor_data_def)
  show "Matrix_ctor_data alloc r c d = Inl SizeMismatch"
    if "r \<noteq> 0 \<and> c \<noteq> 0 \<and> length d \<noteq> unat (r * c)"
    using that assms by (simp add: Matrix_ctor_data_def vsize_eq_iff)
  show "Matrix_ctor_data alloc r c d = Inr \<lparr>rows = r, cols = c, data = d\<rparr>"
    if "r \<noteq> 0 \<and> c \<noteq> 0 \<and> length d = unat (r * c)"
    using that assms by (simp add: Matrix_ctor_data_def vsize_eq_iff)
next
  assume a: "r \<noteq> 0 \<and> c \<noteq> 0 \<and> length d = unat r * unat c"
  let ?m = "\<lparr>rows = r, cols = c, data = d\<rparr>"
  have cnt: "unat (r * c) = length d" using a assms(2) by (simp add: unat_word_ariths)
  show "Matrix_ctor_data alloc r c d = Inr ?m"
    using a assms cnt by (simp add: Matrix_ctor_data_def vsize_eq_iff)
  show v: "valid ?m" using a assms(2) by (simp add: valid_def)
  show "\<forall>i j. i < r \<and> j < c \<longrightarrow> at_const ?m i j = Inr (d ! (unat i * unat c + unat j))"
    using at_const_word[OF v] by (simp add: entry_def)
qed

theorem Matrix_ctor_data_row_major_witness:
  "Matrix_ctor_data grant_all 0 3 [1, 2, 3 :: real] = Inl InvalidDimension
   \<and> Matrix_ctor_data grant_all 2 3 [1, 2, 3, 4, 5 :: real] = Inl SizeMismatch
   \<and> Matrix_ctor_data grant_all 2 3 [1, 2, 3, 4, 5, 6 :: real]
       = Inr \<lparr>rows = 2, cols = 3, data = [1, 2, 3, 4, 5, 6]\<rparr>
   \<and> valid \<lparr>rows = 2, cols = 3, data = [1, 2, 3, 4, 5, 6 :: real]\<rparr>
   \<and> at_const \<lparr>rows = 2, cols = 3, data = [1, 2, 3, 4, 5, 6 :: real]\<rparr> 1 2 = Inr 6"
proof -
  have mem: "vector_alloc grant_all n" for n by (simp add: vector_alloc_def)
  have b: "(1 :: size_t) < 2" "(2 :: size_t) < 3" by (simp_all add: word_less_nat_alt)
  have 1: "Matrix_ctor_data grant_all 0 3 [1, 2, 3 :: real] = Inl InvalidDimension"
    using Matrix_ctor_data_row_major[OF mem, of "[1, 2, 3 :: real]" 0 3] by simp
  have 2: "Matrix_ctor_data grant_all 2 3 [1, 2, 3, 4, 5 :: real] = Inl SizeMismatch"
    using Matrix_ctor_data_row_major[OF mem, of "[1, 2, 3, 4, 5 :: real]" 2 3] by simp
  from Matrix_ctor_data_row_major[OF mem, of "[1, 2, 3, 4, 5, 6 :: real]" 2 3]
  have 3: "Matrix_ctor_data grant_all 2 3 [1, 2, 3, 4, 5, 6 :: real]
       = Inr \<lparr>rows = 2, cols = 3, data = [1, 2, 3, 4, 5, 6]\<rparr>"
    and 4: "valid \<lparr>rows = 2, cols = 3, data = [1, 2, 3, 4, 5, 6 :: real]\<rparr>"
    and 5: "\<forall>i j. i < 2 \<and> j < 3 \<longrightarrow>
              at_const \<lparr>rows = 2, cols = 3, data = [1, 2, 3, 4, 5, 6 :: real]\<rparr> i j
                = Inr ([1, 2, 3, 4, 5, 6] ! (unat i * unat (3 :: size_t) + unat j))"
    by simp_all
  from 5 b have "at_const \<lparr>rows = 2, cols = 3, data = [1, 2, 3, 4, 5, 6 :: real]\<rparr> 1 2
                = Inr ([1, 2, 3, 4, 5, 6] ! (unat (1 :: size_t) * unat (3 :: size_t) + unat (2 :: size_t)))"
    by blast
  then have 6: "at_const \<lparr>rows = 2, cols = 3, data = [1, 2, 3, 4, 5, 6 :: real]\<rparr> 1 2 = Inr 6"
    by simp
  from 1 2 3 4 6 show ?thesis by simp
qed

text \<open>
  The claim C5 as written fails where the product overflows: for \<open>rows = 2^63\<close> and
  \<open>cols = 2\<close> the empty sequence, whose length is not \<open>2^64\<close>, is accepted, and the
  element \<open>(0, 0)\<close> of the Matrix that results is not \<open>data[0]\<close>: there is none.
\<close>

theorem Matrix_ctor_data_overflow_accepted:
  "Matrix_ctor_data grant_all (2 ^ 63) 2 ([] :: real list)
     = Inr \<lparr>rows = 2 ^ 63, cols = 2, data = []\<rparr>
   \<and> Matrix_ctor_data grant_all (2 ^ 63) 2 ([] :: real list) \<noteq> Inl SizeMismatch
   \<and> length ([] :: real list) \<noteq> unat (2 ^ 63 :: size_t) * unat (2 :: size_t)
   \<and> at_const \<lparr>rows = 2 ^ 63, cols = 2, data = ([] :: real list)\<rparr> 0 0 = Inl Undefined"
  by (simp add: Matrix_ctor_data_def vector_alloc_def vsize_def at_const_def vec_read_def)

section \<open>Overflow of the element count\<close>

text \<open>
  C10. The data-initialised constructor compares \<open>data.size()\<close> with \<open>rows * cols\<close>
  computed in \<open>size_t\<close>, that is modulo \<open>2^64\<close>: with non-zero dimensions and the
  copy granted, SizeMismatch is thrown exactly when the length of \<open>data\<close> differs from
  the product of \<open>rows\<close> and \<open>cols\<close> reduced modulo \<open>2^64\<close>, and the Matrix holding
  \<open>rows\<close>, \<open>cols\<close> and \<open>data\<close> is yielded exactly when it equals that. So for
  \<open>rows = cols = 2^32\<close>, whose product \<open>2^64\<close> wraps to 0, the empty sequence is
  accepted without SizeMismatch, and the Matrix that results stores 0 elements, not
  \<open>2^64\<close>.
\<close>

theorem ctor_data_size_check_wraps:
  "(r \<noteq> 0 \<and> c \<noteq> 0 \<and> vector_alloc alloc (length d) \<and> length d < 2 ^ 64 \<longrightarrow>
      (Matrix_ctor_data alloc r c d = Inl SizeMismatch
         \<longleftrightarrow> length d \<noteq> (unat r * unat c) mod 2 ^ 64)
      \<and> (Matrix_ctor_data alloc r c d = Inr \<lparr>rows = r, cols = c, data = d\<rparr>
         \<longleftrightarrow> length d = (unat r * unat c) mod 2 ^ 64))
   \<and> (2 ^ 32 :: size_t) > 0
   \<and> unat (2 ^ 32 :: size_t) * unat (2 ^ 32 :: size_t) \<ge> 2 ^ 64
   \<and> length ([] :: real list) = (unat (2 ^ 32 :: size_t) * unat (2 ^ 32 :: size_t)) mod 2 ^ 64
   \<and> Matrix_ctor_data grant_all (2 ^ 32) (2 ^ 32) ([] :: real list)
       = Inr \<lparr>rows = 2 ^ 32, cols = 2 ^ 32, data = []\<rparr>
   \<and> length (data \<lparr>rows = 2 ^ 32 :: size_t, cols = 2 ^ 32 :: size_t, data = ([] :: real list)\<rparr>)
       \<noteq> unat (2 ^ 32 :: size_t) * unat (2 ^ 32 :: size_t)"
proof -
  have wrap: "unat (r * c) = (unat r * unat c) mod 2 ^ 64"
    by (simp add: unat_word_ariths)
  have general: "(Matrix_ctor_data alloc r c d = Inl SizeMismatch
         \<longleftrightarrow> length d \<noteq> (unat r * unat c) mod 2 ^ 64)
      \<and> (Matrix_ctor_data alloc r c d = Inr \<lparr>rows = r, cols = c, data = d\<rparr>
         \<longleftrightarrow> length d = (unat r * unat c) mod 2 ^ 64)"
    if "r \<noteq> 0 \<and> c \<noteq> 0 \<and> vector_alloc alloc (length d) \<and> length d < 2 ^ 64"
    using that vsize_eq_iff[of d "r * c"]
    by (simp add: Matrix_ctor_data_def SizeMismatch_def wrap)
  have example: "(2 ^ 32 :: size_t) > 0
   \<and> unat (2 ^ 32 :: size_t) * unat (2 ^ 32 :: size_t) \<ge> 2 ^ 64
   \<and> length ([] :: real list) = (unat (2 ^ 32 :: size_t) * unat (2 ^ 32 :: size_t)) mod 2 ^ 64
   \<and> Matrix_ctor_data grant_all (2 ^ 32) (2 ^ 32) ([] :: real list)
       = Inr \<lparr>rows = 2 ^ 32, cols = 2 ^ 32, data = []\<rparr>
   \<and> length (data \<lparr>rows = 2 ^ 32 :: size_t, cols = 2 ^ 32 :: size_t, data = ([] :: real list)\<rparr>)
       \<noteq> unat (2 ^ 32 :: size_t) * unat (2 ^ 32 :: size_t)"
    by (simp add: Matrix_ctor_data_def vector_alloc_def vsize_def)
  from general example show ?thesis by blast
qed

text \<open>
  At \<open>rows = cols = 2^32\<close> the empty sequence is accepted and a sequence of one
  element, or of two, is rejected; at \<open>rows = 2^32\<close>, \<open>cols = 2^32 + 1\<close>, whose product
  is \<open>2^64 + 2^32\<close>, a sequence of \<open>2^32\<close> elements is accepted and the empty one
  rejected.
\<close>

theorem ctor_data_size_check_wraps_witness:
  "Matrix_ctor_data grant_all (2 ^ 32) (2 ^ 32) ([] :: real list)
       = Inr \<lparr>rows = 2 ^ 32, cols = 2 ^ 32, data = []\<rparr>
   \<and> Matrix_ctor_data grant_all (2 ^ 32) (2 ^ 32) [0 :: real] = Inl SizeMismatch
   \<and> Matrix_ctor_data grant_all (2 ^ 32) (2 ^ 32) [1, 2 :: real] = Inl SizeMismatch
   \<and> Matrix_ctor_data grant_all (2 ^ 32) (2 ^ 32 + 1) (replicate (2 ^ 32) (0 :: real))
       = Inr \<lparr>rows = 2 ^ 32, cols = 2 ^ 32 + 1, data = replicate (2 ^ 32) 0\<rparr>
   \<and> Matrix_ctor_data grant_all (2 ^ 32) (2 ^ 32 + 1) ([] :: real list) = Inl SizeMismatch"
proof -
  have 1: "Matrix_ctor_data grant_all (2 ^ 32) (2 ^ 32) ([] :: real list)
       = Inr \<lparr>rows = 2 ^ 32, cols = 2 ^ 32, data = []\<rparr>"
    using ctor_data_size_check_wraps[of "2 ^ 32" "2 ^ 32" grant_all "[] :: real list"]
    by (simp add: vector_alloc_def)
  have 2: "Matrix_ctor_data grant_all (2 ^ 32) (2 ^ 32) [0 :: real] = Inl SizeMismatch"
    using ctor_data_size_check_wraps[of "2 ^ 32" "2 ^ 32" grant_all "[0 :: real]"]
    by (simp add: vector_alloc_def)
  have 3: "Matrix_ctor_data grant_all (2 ^ 32) (2 ^ 32) [1, 2 :: real] = Inl SizeMismatch"
    using ctor_data_size_check_wraps[of "2 ^ 32" "2 ^ 32" grant_all "[1, 2 :: real]"]
    by (simp add: vector_alloc_def)
  have 4: "Matrix_ctor_data grant_all (2 ^ 32) (2 ^ 32 + 1) (replicate (2 ^ 32) (0 :: real))
       = Inr \<lparr>rows = 2 ^ 32, cols = 2 ^ 32 + 1, data = replicate (2 ^ 32) 0\<rparr>"
    using ctor_data_size_check_wraps[of "2 ^ 32" "2 ^ 32 + 1" grant_all "replicate (2 ^ 32) (0 :: real)"]
    by (simp add: vector_alloc_def)
  have 5: "Matrix_ctor_data grant_all (2 ^ 32) (2 ^ 32 + 1) ([] :: real list) = Inl SizeMismatch"
    using ctor_data_size_check_wraps[of "2 ^ 32" "2 ^ 32 + 1" grant_all "[] :: real list"]
    by (simp add: vector_alloc_def)
  from 1 2 3 4 5 show ?thesis by simp
qed

section \<open>Addition\<close>

lemma operator_plus_mismatch:
  "rows a \<noteq> rows b \<or> cols a \<noteq> cols b \<Longrightarrow> operator_plus alloc a b = Inl DimensionMismatch_add"
  by (auto simp: operator_plus_def)

lemma operator_plus_refused:
  assumes "rows a = rows b" "cols a = cols b" "\<not> vector_alloc alloc (unat (rows a * cols a))"
  shows "operator_plus alloc a b = Inl (Throw bad_alloc)"
  using assms by (simp add: operator_plus_def Matrix_ctor_refused bind_Inl)

text \<open>
  \<open>operator+\<close> needs of its operands only what the constructors establish: the buffers
  have \<open>rows * cols\<close> elements, the product taken in \<open>size_t\<close>.
\<close>

lemma operator_plus_constructed:
  fixes a b :: "('a::{zero,plus}) Matrix"
  assumes va: "valid_mod a" and vb: "valid_mod b"
    and shape: "rows a = rows b" "cols a = cols b"
    and mem: "vector_alloc alloc (length (data a))"
  shows "operator_plus alloc a b
    = Inr \<lparr>rows = rows a, cols = cols a, data = map2 (+) (data a) (data b)\<rparr>"
proof -
  let ?n = "length (data a)"
  have cnt: "unat (rows a * cols a) = ?n" using va by (simp add: valid_mod_def)
  have n64: "?n < 2 ^ 64" using unsigned_less[of "rows a * cols a", where 'a = nat] cnt by simp
  have lb: "length (data b) = ?n" using va vb shape by (simp add: valid_mod_def)
  let ?res0 = "\<lparr>rows = rows a, cols = cols a, data = replicate ?n (0::'a)\<rparr>"
  have ctor: "Matrix_ctor alloc (rows a) (cols a) = Inr ?res0"
    using va mem cnt by (simp add: Matrix_ctor_def valid_mod_def)
  let ?body = "\<lambda>i (result :: 'a Matrix).
          bind (vec_read (data a) i) (\<lambda>x.
          bind (vec_read (data b) i) (\<lambda>y.
          bind (vec_write (data result) i (x + y)) (\<lambda>d.
          Inr (result\<lparr>data := d\<rparr>))))"
  let ?P = "\<lambda>k (res :: 'a Matrix). rows res = rows a \<and> cols res = cols a \<and> length (data res) = ?n
              \<and> (\<forall>p<k. data res ! p = data a ! p + data b ! p)"
  have "\<exists>s'. for_loop 0 (vsize (data a)) ?body ?res0 = Inr s' \<and> ?P (unat (vsize (data a))) s'"
  proof (rule for_loop_total[where P = ?P])
    show "?P (unat (0::size_t)) ?res0" by simp
    show "(0::size_t) \<le> vsize (data a)" by simp
    fix k and s :: "'a Matrix" assume k: "k < unat (vsize (data a))" and P: "?P k s"
    from k have kn: "k < ?n" using n64 by (simp add: unat_vsize)
    have "?body (of_nat k) s = Inr (s\<lparr>data := (data s)[k := data a ! k + data b ! k]\<rparr>)"
      using kn n64 lb P by (simp add: bind_Inr vec_read_of_nat vec_write_of_nat)
    moreover have "?P (Suc k) (s\<lparr>data := (data s)[k := data a ! k + data b ! k]\<rparr>)"
      using P kn by (auto simp: less_Suc_eq nth_list_update)
    ultimately show "\<exists>s'. ?body (of_nat k) s = Inr s' \<and> ?P (Suc k) s'" by blast
  qed
  then obtain res where loop: "for_loop 0 (vsize (data a)) ?body ?res0 = Inr res"
    and res: "?P ?n res" using n64 by (auto simp: unat_vsize)
  have "data res = map2 (+) (data a) (data b)"
    using res lb by (intro nth_equalityI) auto
  then have "res = \<lparr>rows = rows a, cols = cols a, data = map2 (+) (data a) (data b)\<rparr>"
    using res by (intro Matrix.equality) auto
  then show ?thesis
    using shape ctor loop by (simp add: operator_plus_def bind_Inr)
qed

lemma operator_plus_valid:
  fixes a b :: "('a::{zero,plus}) Matrix"
  assumes va: "valid a" and vb: "valid b"
    and shape: "rows a = rows b" "cols a = cols b"
    and mem: "vector_alloc alloc (length (data a))"
  shows "operator_plus alloc a b
    = Inr \<lparr>rows = rows a, cols = cols a, data = map2 (+) (data a) (data b)\<rparr>"
  by (rule operator_plus_constructed[OF valid_imp_valid_mod[OF va] valid_imp_valid_mod[OF vb] shape mem])

text \<open>Reading the sum at any position is reading both operands there and adding.\<close>

lemma at_const_map2_plus:
  fixes a b :: "('a::{zero,plus}) Matrix"
  assumes "rows a = rows b" "cols a = cols b" "length (data b) = length (data a)"
  shows "at_const \<lparr>rows = rows a, cols = cols a, data = map2 (+) (data a) (data b)\<rparr> i j
           = bind (at_const a i j) (\<lambda>x. bind (at_const b i j) (\<lambda>y. Inr (x + y)))"
  using assms by (simp add: at_const_def vec_read_def bind_def)

lemma operator_plus_entries:
  fixes a b :: "('a::{zero,plus}) Matrix"
  assumes va: "valid a" and vb: "valid b"
    and shape: "rows a = rows b" "cols a = cols b"
    and mem: "vector_alloc alloc (length (data a))"
  shows "\<exists>res. operator_plus alloc a b = Inr res \<and> rows res = rows a \<and> cols res = cols a
           \<and> valid res \<and> data res = map2 (+) (data a) (data b)
           \<and> (\<forall>i j. i < rows a \<and> j < cols a \<longrightarrow>
                 (\<exists>x y. at_const a i j = Inr x \<and> at_const b i j = Inr y
                        \<and> at_const res i j = Inr (x + y)))"
proof -
  let ?res = "\<lparr>rows = rows a, cols = cols a, data = map2 (+) (data a) (data b)\<rparr>"
  have lb: "length (data b) = length (data a)" using va vb shape by (simp add: valid_def)
  have v: "valid ?res" using va lb by (simp add: valid_def)
  have "\<exists>x y. at_const a i j = Inr x \<and> at_const b i j = Inr y \<and> at_const ?res i j = Inr (x + y)"
    if ij: "i < rows a" "j < cols a" for i j
  proof -
    have "unat i < unat (rows a)" "unat j < unat (cols a)"
      using ij by (simp_all add: word_less_nat_alt)
    from index_bound[OF this] have lt: "unat i * unat (cols a) + unat j < length (data a)"
      using va by (simp add: valid_def)
    have "entry ?res (unat i) (unat j) = entry a (unat i) (unat j) + entry b (unat i) (unat j)"
      using lt lb shape by (simp add: entry_def)
    moreover have "at_const a i j = Inr (entry a (unat i) (unat j))"
      by (rule at_const_word[OF va ij])
    moreover have "at_const b i j = Inr (entry b (unat i) (unat j))"
      using at_const_word[OF vb, of i j] ij shape by simp
    moreover have "at_const ?res i j = Inr (entry ?res (unat i) (unat j))"
      using at_const_word[OF v, of i j] ij by simp
    ultimately show ?thesis by simp
  qed
  then show ?thesis using operator_plus_valid[OF assms] v by auto
qed

text \<open>
  Adding the zero-filled matrix of the same shape adds 0.0 to every element. Whether
  \<open>x + 0.0\<close> is \<open>x\<close> again is a matter of the doubles' arithmetic and of the equality
  meant (IEEE-754 gives \<open>+0.0\<close> for \<open>-0.0 + 0.0\<close>, and a NaN compares unequal to
  itself), which the model leaves open.
\<close>

lemma operator_plus_zero_matrix:
  fixes m :: "('a::{zero,plus}) Matrix"
  assumes vm: "valid m" and mem: "vector_alloc alloc (length (data m))"
  shows "bind (Matrix_ctor alloc (rows m) (cols m)) (operator_plus alloc m)
           = Inr (m\<lparr>data := map (\<lambda>x. x + 0) (data m)\<rparr>)"
proof -
  let ?z = "\<lparr>rows = rows m, cols = cols m, data = replicate (length (data m)) (0::'a)\<rparr>"
  have ctor: "Matrix_ctor alloc (rows m) (cols m) = Inr ?z"
    using vm mem valid_count[OF vm] by (simp add: Matrix_ctor_def valid_def)
  have vz: "valid ?z" using vm by (simp add: valid_def)
  have "map2 (+) (data m) (replicate (length (data m)) (0::'a)) = map (\<lambda>x. x + 0) (data m)"
    by (intro nth_equalityI) auto
  then have "operator_plus alloc m ?z = Inr (m\<lparr>data := map (\<lambda>x. x + 0) (data m)\<rparr>)"
    using operator_plus_valid[OF vm vz _ _ mem] by simp
  then show ?thesis using ctor by (simp add: bind_Inr)
qed

text \<open>
  C2. \<open>operator+\<close> fails with DimensionMismatch when the operands differ in rows or in
  cols. On operands of the same shape, each as a constructor or an operation yields
  it (the buffer has \<open>rows * cols\<close> elements, the product in \<open>size_t\<close>), it returns a new
  Matrix of that shape, of the same kind, whose buffer is the elementwise sum of the
  operands' buffers: reading it at any \<open>(i, j)\<close> is reading both operands there and
  adding, so every element of the left operand at \<open>(i, j)\<close> meets an element of the
  right one there, and the result holds their sum at \<open>(i, j)\<close>. When the operands
  satisfy the invariant with the product in the naturals, so does the result, and
  every position in bounds holds such a sum. The one other outcome is \<open>bad_alloc\<close>,
  when the buffer of the result is refused.
\<close>

theorem operator_plus_elementwise:
  fixes a b :: "('a::{zero,plus}) Matrix"
  shows "(rows a \<noteq> rows b \<or> cols a \<noteq> cols b \<longrightarrow>
            operator_plus alloc a b = Inl DimensionMismatch_add)
   \<and> (valid_mod a \<and> valid_mod b \<and> rows a = rows b \<and> cols a = cols b
        \<and> vector_alloc alloc (length (data a)) \<longrightarrow>
        (\<exists>res. operator_plus alloc a b = Inr res \<and> rows res = rows a \<and> cols res = cols a
           \<and> valid_mod res \<and> (valid a \<longrightarrow> valid res)
           \<and> length (data res) = length (data a) \<and> data res = map2 (+) (data a) (data b)
           \<and> (\<forall>i j. at_const res i j
                  = bind (at_const a i j) (\<lambda>x. bind (at_const b i j) (\<lambda>y. Inr (x + y))))
           \<and> (\<forall>i j x. at_const a i j = Inr x \<longrightarrow>
                 (\<exists>y. at_const b i j = Inr y \<and> at_const res i j = Inr (x + y)))
           \<and> (\<forall>i j. valid a \<and> i < rows a \<and> j < cols a \<longrightarrow>
                 (\<exists>x y. at_const a i j = Inr x \<and> at_const b i j = Inr y
                        \<and> at_const res i j = Inr (x + y)))))
   \<and> (rows a = rows b \<and> cols a = cols b \<and> \<not> vector_alloc alloc (unat (rows a * cols a)) \<longrightarrow>
        operator_plus alloc a b = Inl (Throw bad_alloc))"
proof -
  have 1: "rows a \<noteq> rows b \<or> cols a \<noteq> cols b \<longrightarrow>
            operator_plus alloc a b = Inl DimensionMismatch_add"
    using operator_plus_mismatch[of a b alloc] by blast
  have 3: "rows a = rows b \<and> cols a = cols b \<and> \<not> vector_alloc alloc (unat (rows a * cols a)) \<longrightarrow>
        operator_plus alloc a b = Inl (Throw bad_alloc)"
    using operator_plus_refused[of a b alloc] by blast
  have 2: "\<exists>res. operator_plus alloc a b = Inr res \<and> rows res = rows a \<and> cols res = cols a
           \<and> valid_mod res \<and> (valid a \<longrightarrow> valid res)
           \<and> length (data res) = length (data a) \<and> data res = map2 (+) (data a) (data b)
           \<and> (\<forall>i j. at_const res i j
                  = bind (at_const a i j) (\<lambda>x. bind (at_const b i j) (\<lambda>y. Inr (x + y))))
           \<and> (\<forall>i j x. at_const a i j = Inr x \<longrightarrow>
                 (\<exists>y. at_const b i j = Inr y \<and> at_const res i j = Inr (x + y)))
           \<and> (\<forall>i j. valid a \<and> i < rows a \<and> j < cols a \<longrightarrow>
                 (\<exists>x y. at_const a i j = Inr x \<and> at_const b i j = Inr y
                        \<and> at_const res i j = Inr (x + y)))"
    if h: "valid_mod a \<and> valid_mod b \<and> rows a = rows b \<and> cols a = cols b
        \<and> vector_alloc alloc (length (data a))"
  proof -
    let ?res = "\<lparr>rows = rows a, cols = cols a, data = map2 (+) (data a) (data b)\<rparr>"
    from h have va: "valid_mod a" and vb: "valid_mod b" and shape: "rows a = rows b" "cols a = cols b"
      and mem: "vector_alloc alloc (length (data a))" by simp_all
    have lb: "length (data b) = length (data a)" using va vb shape by (simp add: valid_mod_def)
    have r: "operator_plus alloc a b = Inr ?res"
      by (rule operator_plus_constructed[OF va vb shape mem])
    have vr: "valid_mod ?res" using va lb by (simp add: valid_mod_def)
    have vv: "valid ?res" if "valid a" using that lb by (simp add: valid_def)
    have rd: "at_const ?res i j
                = bind (at_const a i j) (\<lambda>x. bind (at_const b i j) (\<lambda>y. Inr (x + y)))" for i j
      by (rule at_const_map2_plus[OF shape lb])
    have el: "\<exists>y. at_const b i j = Inr y \<and> at_const ?res i j = Inr (x + y)"
      if "at_const a i j = Inr x" for i j x
      using that shape lb
      by (auto simp: at_const_def vec_read_def split: if_splits)
    have ev: "\<exists>x y. at_const a i j = Inr x \<and> at_const b i j = Inr y \<and> at_const ?res i j = Inr (x + y)"
      if "valid a \<and> i < rows a \<and> j < cols a" for i j
    proof -
      from that have "at_const a i j = Inr (entry a (unat i) (unat j))"
        by (intro at_const_word) simp_all
      with el show ?thesis by blast
    qed
    show ?thesis
      using r vr vv lb rd el ev by (intro exI[of _ ?res]) simp
  qed
  from 1 2 3 show ?thesis by blast
qed

theorem operator_plus_elementwise_witness:
  "operator_plus grant_all \<lparr>rows = 2, cols = 2, data = [1, 2, 3, 4 :: real]\<rparr>
      \<lparr>rows = 2, cols = 2, data = [5, 6, 7, 8]\<rparr>
     = Inr \<lparr>rows = 2, cols = 2, data = [6, 8, 10, 12]\<rparr>
   \<and> valid \<lparr>rows = 2, cols = 2, data = [6, 8, 10, 12 :: real]\<rparr>
   \<and> at_const \<lparr>rows = 2, cols = 2, data = [6, 8, 10, 12 :: real]\<rparr> 1 0 = Inr 10
   \<and> operator_plus grant_all \<lparr>rows = 2, cols = 3, data = [1, 2, 3, 4, 5, 6 :: real]\<rparr>
      \<lparr>rows = 3, cols = 2, data = [1, 2, 3, 4, 5, 6]\<rparr>
     = Inl DimensionMismatch_add
   \<and> operator_plus grant_none \<lparr>rows = 2, cols = 2, data = [1, 2, 3, 4 :: real]\<rparr>
      \<lparr>rows = 2, cols = 2, data = [5, 6, 7, 8]\<rparr>
     = Inl (Throw bad_alloc)
   \<and> operator_plus grant_all \<lparr>rows = 2 ^ 32, cols = 2 ^ 32, data = ([] :: real list)\<rparr>
      \<lparr>rows = 2 ^ 32, cols = 2 ^ 32, data = []\<rparr>
     = Inr \<lparr>rows = 2 ^ 32, cols = 2 ^ 32, data = []\<rparr>"
proof -
  let ?a = "\<lparr>rows = 2, cols = 2, data = [1, 2, 3, 4 :: real]\<rparr>"
  let ?b = "\<lparr>rows = 2, cols = 2, data = [5, 6, 7, 8 :: real]\<rparr>"
  let ?c = "\<lparr>rows = 2, cols = 3, data = [1, 2, 3, 4, 5, 6 :: real]\<rparr>"
  let ?d = "\<lparr>rows = 3, cols = 2, data = [1, 2, 3, 4, 5, 6 :: real]\<rparr>"
  let ?e = "\<lparr>rows = 2 ^ 32, cols = 2 ^ 32, data = ([] :: real list)\<rparr>"
  have v: "valid ?a" "valid_mod ?a" "valid_mod ?b" "valid_mod ?e"
    by (simp_all add: valid_def valid_mod_def)
  have b: "(1 :: size_t) < 2" "(0 :: size_t) < 2" by (simp_all add: word_less_nat_alt)
  have rd: "at_const ?a 1 0 = Inr 3" "at_const ?b 1 0 = Inr 7"
    by (simp_all add: at_const_def vec_read_def word_le_nat_alt)
  from operator_plus_elementwise[of ?a ?b grant_all] v
  obtain res where res: "operator_plus grant_all ?a ?b = Inr res" "rows res = 2" "cols res = 2"
    "data res = [6, 8, 10, 12]" "valid res"
    and el: "\<forall>i j x. at_const ?a i j = Inr x \<longrightarrow>
                 (\<exists>y. at_const ?b i j = Inr y \<and> at_const res i j = Inr (x + y))"
    by (auto simp: vector_alloc_def)
  have eq: "res = \<lparr>rows = 2, cols = 2, data = [6, 8, 10, 12]\<rparr>"
    using res(2-4) by (intro Matrix.equality) simp_all
  from el rd have "at_const res 1 0 = Inr 10" by fastforce
  with res(1,5) eq have 1: "operator_plus grant_all ?a ?b = Inr \<lparr>rows = 2, cols = 2, data = [6, 8, 10, 12]\<rparr>"
    "valid \<lparr>rows = 2, cols = 2, data = [6, 8, 10, 12 :: real]\<rparr>"
    "at_const \<lparr>rows = 2, cols = 2, data = [6, 8, 10, 12 :: real]\<rparr> 1 0 = Inr 10"
    by simp_all
  have 2: "operator_plus grant_all ?c ?d = Inl DimensionMismatch_add"
    using operator_plus_elementwise[of ?c ?d grant_all] by simp
  have 3: "operator_plus grant_none ?a ?b = Inl (Throw bad_alloc)"
    using operator_plus_elementwise[of ?a ?b grant_none] by (simp add: vector_alloc_def)
  from operator_plus_elementwise[of ?e ?e grant_all] v
  obtain r4 where r4: "operator_plus grant_all ?e ?e = Inr r4" "rows r4 = 2 ^ 32" "cols r4 = 2 ^ 32"
    "data r4 = []"
    by (auto simp: vector_alloc_def)
  have "r4 = ?e" using r4(2-4) by (intro Matrix.equality) simp_all
  with r4(1) have 4: "operator_plus grant_all ?e ?e = Inr ?e" by simp
  from 1 2 3 4 show ?thesis by simp
qed

section \<open>Transposition\<close>

lemma transpose_matrix_refused:
  "\<not> vector_alloc alloc (unat (cols m * rows m)) \<Longrightarrow>
   transpose_matrix alloc m = Inl (Throw bad_alloc)"
  by (simp add: transpose_matrix_def Matrix_ctor_refused bind_Inl)

lemma transpose_matrix_valid:
  fixes m :: "('a::zero) Matrix"
  assumes vm: "valid m" and mem: "vector_alloc alloc (length (data m))"
  shows "\<exists>res. transpose_matrix alloc m = Inr res \<and> rows res = cols m \<and> cols res = rows m
           \<and> valid res
           \<and> (\<forall>i<unat (rows m). \<forall>j<unat (cols m). entry res j i = entry m i j)"
proof -
  let ?R = "unat (rows m)" and ?C = "unat (cols m)" and ?n = "length (data m)"
  have n: "?n = ?R * ?C" and n64: "?n < 2 ^ 64" and nz: "rows m \<noteq> 0" "cols m \<noteq> 0"
    using vm by (simp_all add: valid_def)
  have cnt: "unat (cols m * rows m) = ?n"
    using valid_count[OF vm] by (simp add: mult.commute)
  let ?res0 = "\<lparr>rows = cols m, cols = rows m, data = replicate ?n (0::'a)\<rparr>"
  have ctor: "Matrix_ctor alloc (cols m) (rows m) = Inr ?res0"
    using nz mem cnt by (simp add: Matrix_ctor_def)
  let ?shape = "\<lambda>res :: 'a Matrix. rows res = cols m \<and> cols res = rows m \<and> length (data res) = ?n"
  let ?done = "\<lambda>(res :: 'a Matrix) i j. data res ! (j * ?R + i) = data m ! (i * ?C + j)"
  let ?PO = "\<lambda>i (res :: 'a Matrix). ?shape res \<and> (\<forall>i'<i. \<forall>j<?C. ?done res i' j)"
  let ?PI = "\<lambda>i j (res :: 'a Matrix). ?shape res \<and> (\<forall>i'<i. \<forall>j<?C. ?done res i' j)
               \<and> (\<forall>j'<j. ?done res i j')"
  let ?inner = "\<lambda>i j (result :: 'a Matrix).
           bind (at_const m i j) (\<lambda>x.
           bind (at_mut result j i) (\<lambda>l.
           Inr (assign result l x)))"
  let ?outer = "\<lambda>i (result :: 'a Matrix). for_loop 0 (cols m) (?inner i) result"
  have shape_valid: "valid res" if "?shape res" for res :: "'a Matrix"
    using that n n64 nz by (simp add: valid_def mult.commute)
  have inner_step: "\<exists>s'. ?inner (of_nat i) (of_nat j) s = Inr s' \<and> ?PI i (Suc j) s'"
    if i: "i < ?R" and j: "j < ?C" and P: "?PI i j s" for i j and s :: "'a Matrix"
  proof -
    have sh: "?shape s" using P by simp
    have rd: "at_const m (of_nat i) (of_nat j) = Inr (data m ! (i * ?C + j))"
      using at_const_valid[OF vm i j] by (simp add: entry_def)
    have wr: "at_mut s (of_nat j) (of_nat i) = Inr (j * ?R + i)"
      using at_mut_valid[OF shape_valid[OF sh], of j i] sh i j by simp
    let ?s' = "assign s (j * ?R + i) (data m ! (i * ?C + j))"
    have step: "?inner (of_nat i) (of_nat j) s = Inr ?s'"
      by (simp add: rd wr bind_Inr)
    have len: "length (data s) = ?n" using sh by simp
    have lt: "j * ?R + i < length (data s)"
      using index_bound[OF j i] len n mult.commute[of ?C ?R] by linarith
    have new: "?done ?s' i j" by (rule assign_same[OF lt])
    have old: "?done ?s' i' j'" if "i' < ?R" "?done s i' j'" "(i', j') \<noteq> (i, j)" for i' j'
    proof -
      have neq: "j' * ?R + i' \<noteq> j * ?R + i"
      proof
        assume "j' * ?R + i' = j * ?R + i"
        from index_inj[OF that(1) i this] show False using that(3) by simp
      qed
      show ?thesis using that(2) by (simp only: assign_other[OF neq])
    qed
    have "?shape ?s'" using sh by (simp add: assign_shape)
    moreover have "\<forall>i'<i. \<forall>j'<?C. ?done ?s' i' j'"
    proof (intro allI impI)
      fix i' j' assume a: "i' < i" "j' < ?C"
      show "?done ?s' i' j'" using a i P by (intro old) auto
    qed
    moreover have "\<forall>j'<Suc j. ?done ?s' i j'"
    proof (intro allI impI)
      fix j' assume a: "j' < Suc j"
      show "?done ?s' i j'"
      proof (cases "j' = j")
        case True then show ?thesis using new by simp
      next
        case False then show ?thesis using a i P by (intro old) auto
      qed
    qed
    ultimately show ?thesis using step by blast
  qed
  have outer_step: "\<exists>s'. ?outer (of_nat i) s = Inr s' \<and> ?PO (Suc i) s'"
    if i: "i < ?R" and P: "?PO i s" for i and s :: "'a Matrix"
  proof -
    have "\<exists>s'. for_loop 0 (cols m) (?inner (of_nat i)) s = Inr s' \<and> ?PI i (unat (cols m)) s'"
    proof (rule for_loop_total[where P = "?PI i"])
      show "?PI i (unat (0::size_t)) s" using P by simp
      show "(0::size_t) \<le> cols m" by simp
      fix k and s :: "'a Matrix" assume "k < ?C" "?PI i k s"
      then show "\<exists>s'. ?inner (of_nat i) (of_nat k) s = Inr s' \<and> ?PI i (Suc k) s'"
        by (rule inner_step[OF i])
    qed
    then obtain s' where s': "?outer (of_nat i) s = Inr s'" "?PI i ?C s'" by blast
    have "?PO (Suc i) s'" using s'(2) by (auto simp: less_Suc_eq)
    with s'(1) show ?thesis by blast
  qed
  have "\<exists>s'. for_loop 0 (rows m) ?outer ?res0 = Inr s' \<and> ?PO (unat (rows m)) s'"
  proof (rule for_loop_total[where P = ?PO])
    show "?PO (unat (0::size_t)) ?res0" by simp
    show "(0::size_t) \<le> rows m" by simp
    fix k and s :: "'a Matrix" assume "k < ?R" "?PO k s"
    then show "\<exists>s'. ?outer (of_nat k) s = Inr s' \<and> ?PO (Suc k) s'"
      by (rule outer_step)
  qed
  then obtain res where loop: "for_loop 0 (rows m) ?outer ?res0 = Inr res" and res: "?PO ?R res"
    by blast
  have "transpose_matrix alloc m = Inr res"
    using ctor loop by (simp add: transpose_matrix_def bind_Inr)
  moreover have "\<forall>i<?R. \<forall>j<?C. entry res j i = entry m i j"
    using res by (simp add: entry_def)
  ultimately show ?thesis using res shape_valid[of res] by auto
qed

lemma transpose_matrix_twice:
  fixes m :: "('a::zero) Matrix"
  assumes vm: "valid m" and mem: "vector_alloc alloc (length (data m))"
    and t: "transpose_matrix alloc m = Inr t"
  shows "transpose_matrix alloc t = Inr m"
proof -
  let ?R = "unat (rows m)" and ?C = "unat (cols m)" and ?n = "length (data m)"
  from transpose_matrix_valid[OF vm mem] t have
    t': "rows t = cols m" "cols t = rows m" "valid t"
    and te: "\<forall>i<?R. \<forall>j<?C. entry t j i = entry m i j" by auto
  have lt: "length (data t) = ?n" using t' vm by (simp add: valid_def mult.commute)
  from transpose_matrix_valid[OF t'(3), of alloc] mem lt obtain u where
    u: "transpose_matrix alloc t = Inr u" "rows u = cols t" "cols u = rows t" "valid u"
    and ue: "\<forall>i<unat (rows t). \<forall>j<unat (cols t). entry u j i = entry t i j"
    by auto
  have lu: "length (data u) = ?n" using u(2-4) t'(1,2) vm by (simp add: valid_def)
  have n: "?n = ?R * ?C" and Cpos: "0 < ?C" using vm by (simp_all add: valid_def unat_gt_0)
  have "data u ! p = data m ! p" if p: "p < ?n" for p
  proof -
    let ?i = "p div ?C" and ?j = "p mod ?C"
    have j: "?j < ?C" using Cpos by simp
    have i: "?i < ?R" using p n Cpos by (simp add: less_mult_imp_div_less)
    have pe: "?i * ?C + ?j = p" by simp
    have "?j < unat (rows t)" "?i < unat (cols t)" using i j t'(1,2) by simp_all
    from ue[rule_format, OF this]
    have "entry u ?i ?j = entry t ?j ?i" .
    also have "\<dots> = entry m ?i ?j" using te i j by simp
    finally have "data u ! (?i * ?C + ?j) = data m ! (?i * ?C + ?j)"
      using u(2,3) t'(1,2) by (simp add: entry_def)
    then show ?thesis by (simp only: pe)
  qed
  then have "data u = data m" using lu by (intro nth_equalityI) auto
  then have "u = m" using u(2,3) t'(1,2) by (intro Matrix.equality) auto
  then show ?thesis using u(1) by simp
qed

text \<open>
  C7. On a Matrix \<open>M\<close> that satisfies the invariant, \<open>transpose\<close> raises none of the
  failures of the value type and has no undefined behaviour: it returns a new Matrix
  of shape \<open>(cols, rows)\<close>, satisfying the invariant, whose element at \<open>(j, i)\<close> is \<open>M\<close>'s
  element at \<open>(i, j)\<close> for all valid \<open>i, j\<close>, and transposing the result gives \<open>M\<close> back.
  The one other outcome is \<open>bad_alloc\<close>, when the buffer of the result is refused.
\<close>

theorem transpose_matrix_round_trip:
  fixes m :: "('a::zero) Matrix"
  shows "(valid m \<and> vector_alloc alloc (length (data m)) \<longrightarrow>
           (\<exists>res. transpose_matrix alloc m = Inr res \<and> rows res = cols m \<and> cols res = rows m
              \<and> valid res
              \<and> (\<forall>i j. i < rows m \<and> j < cols m \<longrightarrow>
                    (\<exists>x. at_const m i j = Inr x \<and> at_const res j i = Inr x))
              \<and> transpose_matrix alloc res = Inr m))
   \<and> (valid m \<and> \<not> vector_alloc alloc (length (data m)) \<longrightarrow>
           transpose_matrix alloc m = Inl (Throw bad_alloc))"
proof (intro conjI impI)
  assume a: "valid m \<and> vector_alloc alloc (length (data m))"
  then have vm: "valid m" and mem: "vector_alloc alloc (length (data m))" by simp_all
  from transpose_matrix_valid[OF vm mem] obtain res where
    res: "transpose_matrix alloc m = Inr res" "rows res = cols m" "cols res = rows m" "valid res"
    and e: "\<forall>i<unat (rows m). \<forall>j<unat (cols m). entry res j i = entry m i j" by blast
  have "\<exists>x. at_const m i j = Inr x \<and> at_const res j i = Inr x"
    if ij: "i < rows m" "j < cols m" for i j
  proof -
    have u: "unat i < unat (rows m)" "unat j < unat (cols m)"
      using ij by (simp_all add: word_less_nat_alt)
    have "at_const m i j = Inr (entry m (unat i) (unat j))"
      by (rule at_const_word[OF vm ij])
    moreover have "at_const res j i = Inr (entry res (unat j) (unat i))"
      using at_const_word[OF res(4), of j i] ij res(2,3) by simp
    ultimately show ?thesis using e u by simp
  qed
  moreover have "transpose_matrix alloc res = Inr m"
    by (rule transpose_matrix_twice[OF vm mem res(1)])
  ultimately show "\<exists>res. transpose_matrix alloc m = Inr res \<and> rows res = cols m \<and> cols res = rows m
              \<and> valid res
              \<and> (\<forall>i j. i < rows m \<and> j < cols m \<longrightarrow>
                    (\<exists>x. at_const m i j = Inr x \<and> at_const res j i = Inr x))
              \<and> transpose_matrix alloc res = Inr m"
    using res by blast
next
  assume "valid m \<and> \<not> vector_alloc alloc (length (data m))"
  then show "transpose_matrix alloc m = Inl (Throw bad_alloc)"
    using valid_count[of m] by (intro transpose_matrix_refused) (simp add: mult.commute)
qed

theorem transpose_matrix_round_trip_witness:
  "(\<exists>res. transpose_matrix grant_all \<lparr>rows = 2, cols = 3, data = [1, 2, 3, 4, 5, 6 :: real]\<rparr> = Inr res
      \<and> rows res = 3 \<and> cols res = 2 \<and> valid res
      \<and> at_const res 2 1 = Inr 6 \<and> at_const res 1 0 = Inr 2
      \<and> transpose_matrix grant_all res = Inr \<lparr>rows = 2, cols = 3, data = [1, 2, 3, 4, 5, 6]\<rparr>)
   \<and> transpose_matrix grant_none \<lparr>rows = 2, cols = 3, data = [1, 2, 3, 4, 5, 6 :: real]\<rparr>
       = Inl (Throw bad_alloc)"
proof -
  let ?m = "\<lparr>rows = 2, cols = 3, data = [1, 2, 3, 4, 5, 6 :: real]\<rparr>"
  have v: "valid ?m" by (simp add: valid_def)
  have b: "(1 :: size_t) < 2" "(2 :: size_t) < 3" "(0 :: size_t) < 2" "(1 :: size_t) < 3"
    by (simp_all add: word_less_nat_alt)
  have rd: "at_const ?m 1 2 = Inr 6" "at_const ?m 0 1 = Inr 2"
    by (simp_all add: at_const_def vec_read_def word_le_nat_alt)
  from transpose_matrix_round_trip[of ?m grant_all] v
  obtain res where res: "transpose_matrix grant_all ?m = Inr res" "rows res = 3" "cols res = 2"
    "valid res" "transpose_matrix grant_all res = Inr ?m"
    and e: "\<forall>i j. i < 2 \<and> j < 3 \<longrightarrow> (\<exists>x. at_const ?m i j = Inr x \<and> at_const res j i = Inr x)"
    by (auto simp: vector_alloc_def)
  from e b(1,2) rd(1) have 1: "at_const res 2 1 = Inr 6" by fastforce
  from e b(3,4) rd(2) have 2: "at_const res 1 0 = Inr 2" by fastforce
  have 3: "transpose_matrix grant_none ?m = Inl (Throw bad_alloc)"
    using transpose_matrix_round_trip[of ?m grant_none] v by (simp add: vector_alloc_def)
  from res 1 2 3 show ?thesis by blast
qed

section \<open>Multiplication\<close>

lemma operator_times_mismatch:
  "cols a \<noteq> rows b \<Longrightarrow> operator_times alloc a b = Inl DimensionMismatch_mul"
  by (simp add: operator_times_def)

lemma operator_times_refused:
  assumes "cols a = rows b" "\<not> vector_alloc alloc (unat (rows a * cols b))"
  shows "operator_times alloc a b = Inl (Throw bad_alloc)"
  using assms by (simp add: operator_times_def Matrix_ctor_refused bind_Inl)

lemma operator_times_valid:
  fixes a b :: "('a::{zero,plus,times}) Matrix"
  assumes va: "valid a" and vb: "valid b" and inner: "cols a = rows b"
    and fit: "unat (rows a) * unat (cols b) < 2 ^ 64"
    and mem: "vector_alloc alloc (unat (rows a) * unat (cols b))"
  shows "\<exists>res. operator_times alloc a b = Inr res \<and> rows res = rows a \<and> cols res = cols b
           \<and> valid res
           \<and> (\<forall>i<unat (rows a). \<forall>j<unat (cols b). entry res i j = dot a b i j)"
proof -
  let ?R = "unat (rows a)" and ?N = "unat (cols a)" and ?C = "unat (cols b)"
  let ?n = "?R * ?C"
  have nz: "rows a \<noteq> 0" "cols b \<noteq> 0" using va vb by (simp_all add: valid_def)
  have cnt: "unat (rows a * cols b) = ?n" using fit by (simp add: unat_word_ariths)
  let ?res0 = "\<lparr>rows = rows a, cols = cols b, data = replicate ?n (0::'a)\<rparr>"
  have ctor: "Matrix_ctor alloc (rows a) (cols b) = Inr ?res0"
    using nz mem cnt by (simp add: Matrix_ctor_def)
  let ?addend = "\<lambda>i j (sum :: 'a) k. sum + entry a i k * entry b k j"
  let ?sumbody = "\<lambda>i j k (sum :: 'a).
                    bind (at_const a i k) (\<lambda>x.
                    bind (at_const b k j) (\<lambda>y.
                    Inr (sum + x * y)))"
  let ?inner = "\<lambda>i j (result :: 'a Matrix).
            bind (for_loop 0 (cols a) (?sumbody i j) 0) (\<lambda>sum.
            bind (at_mut result i j) (\<lambda>l.
            Inr (assign result l sum)))"
  let ?outer = "\<lambda>i (result :: 'a Matrix). for_loop 0 (cols b) (?inner i) result"
  let ?shape = "\<lambda>res :: 'a Matrix. rows res = rows a \<and> cols res = cols b \<and> length (data res) = ?n"
  let ?done = "\<lambda>(res :: 'a Matrix) i j. data res ! (i * ?C + j) = dot a b i j"
  let ?PO = "\<lambda>i (res :: 'a Matrix). ?shape res \<and> (\<forall>i'<i. \<forall>j<?C. ?done res i' j)"
  let ?PI = "\<lambda>i j (res :: 'a Matrix). ?shape res \<and> (\<forall>i'<i. \<forall>j<?C. ?done res i' j)
               \<and> (\<forall>j'<j. ?done res i j')"
  have shape_valid: "valid res" if "?shape res" for res :: "'a Matrix"
    using that fit nz by (simp add: valid_def)
  have sum_loop: "for_loop 0 (cols a) (?sumbody (of_nat i) (of_nat j)) 0 = Inr (dot a b i j)"
    if i: "i < ?R" and j: "j < ?C" for i j
  proof -
    let ?S = "\<lambda>k (sum :: 'a). sum = foldl (?addend i j) 0 [0..<k]"
    have "\<exists>s'. for_loop 0 (cols a) (?sumbody (of_nat i) (of_nat j)) 0 = Inr s'
            \<and> ?S (unat (cols a)) s'"
    proof (rule for_loop_total[where P = ?S])
      show "?S (unat (0::size_t)) 0" by simp
      show "(0::size_t) \<le> cols a" by simp
      fix k and s :: 'a assume k: "k < ?N" and S: "?S k s"
      have x: "at_const a (of_nat i) (of_nat k) = Inr (entry a i k)"
        by (rule at_const_valid[OF va i k])
      have k': "k < unat (rows b)" using k inner by simp
      have y: "at_const b (of_nat k) (of_nat j) = Inr (entry b k j)"
        by (rule at_const_valid[OF vb k' j])
      have "?sumbody (of_nat i) (of_nat j) (of_nat k) s = Inr (?addend i j s k)"
        by (simp add: x y bind_Inr)
      moreover have "?S (Suc k) (?addend i j s k)" using S by simp
      ultimately show "\<exists>s'. ?sumbody (of_nat i) (of_nat j) (of_nat k) s = Inr s' \<and> ?S (Suc k) s'"
        by blast
    qed
    then show ?thesis by (auto simp: dot_def)
  qed
  have inner_step: "\<exists>s'. ?inner (of_nat i) (of_nat j) s = Inr s' \<and> ?PI i (Suc j) s'"
    if i: "i < ?R" and j: "j < ?C" and P: "?PI i j s" for i j and s :: "'a Matrix"
  proof -
    have sh: "?shape s" using P by simp
    have wr: "at_mut s (of_nat i) (of_nat j) = Inr (i * ?C + j)"
      using at_mut_valid[OF shape_valid[OF sh], of i j] sh i j by simp
    let ?s' = "assign s (i * ?C + j) (dot a b i j)"
    have step: "?inner (of_nat i) (of_nat j) s = Inr ?s'"
      by (simp add: sum_loop[OF i j] wr bind_Inr)
    have len: "length (data s) = ?n" using sh by simp
    have lt: "i * ?C + j < length (data s)"
      using index_bound[OF i j] len by linarith
    have new: "?done ?s' i j" by (rule assign_same[OF lt])
    have old: "?done ?s' i' j'" if "j' < ?C" "?done s i' j'" "(i', j') \<noteq> (i, j)" for i' j'
    proof -
      have neq: "i' * ?C + j' \<noteq> i * ?C + j"
      proof
        assume "i' * ?C + j' = i * ?C + j"
        from index_inj[OF that(1) j this] show False using that(3) by simp
      qed
      show ?thesis using that(2) by (simp only: assign_other[OF neq])
    qed
    have "?shape ?s'" using sh by (simp add: assign_shape)
    moreover have "\<forall>i'<i. \<forall>j'<?C. ?done ?s' i' j'"
    proof (intro allI impI)
      fix i' j' assume a: "i' < i" "j' < ?C"
      show "?done ?s' i' j'" using a P by (intro old) auto
    qed
    moreover have "\<forall>j'<Suc j. ?done ?s' i j'"
    proof (intro allI impI)
      fix j' assume a: "j' < Suc j"
      show "?done ?s' i j'"
      proof (cases "j' = j")
        case True then show ?thesis using new by simp
      next
        case False then show ?thesis using a j P by (intro old) auto
      qed
    qed
    ultimately show ?thesis using step by blast
  qed
  have outer_step: "\<exists>s'. ?outer (of_nat i) s = Inr s' \<and> ?PO (Suc i) s'"
    if i: "i < ?R" and P: "?PO i s" for i and s :: "'a Matrix"
  proof -
    have "\<exists>s'. for_loop 0 (cols b) (?inner (of_nat i)) s = Inr s' \<and> ?PI i (unat (cols b)) s'"
    proof (rule for_loop_total[where P = "?PI i"])
      show "?PI i (unat (0::size_t)) s" using P by simp
      show "(0::size_t) \<le> cols b" by simp
      fix k and s :: "'a Matrix" assume "k < ?C" "?PI i k s"
      then show "\<exists>s'. ?inner (of_nat i) (of_nat k) s = Inr s' \<and> ?PI i (Suc k) s'"
        by (rule inner_step[OF i])
    qed
    then obtain s' where s': "?outer (of_nat i) s = Inr s'" "?PI i ?C s'" by blast
    have "?PO (Suc i) s'" using s'(2) by (auto simp: less_Suc_eq)
    with s'(1) show ?thesis by blast
  qed
  have "\<exists>s'. for_loop 0 (rows a) ?outer ?res0 = Inr s' \<and> ?PO (unat (rows a)) s'"
  proof (rule for_loop_total[where P = ?PO])
    show "?PO (unat (0::size_t)) ?res0" by simp
    show "(0::size_t) \<le> rows a" by simp
    fix k and s :: "'a Matrix" assume "k < ?R" "?PO k s"
    then show "\<exists>s'. ?outer (of_nat k) s = Inr s' \<and> ?PO (Suc k) s'"
      by (rule outer_step)
  qed
  then obtain res where loop: "for_loop 0 (rows a) ?outer ?res0 = Inr res" and res: "?PO ?R res"
    by blast
  have "operator_times alloc a b = Inr res"
    using inner ctor loop by (simp add: operator_times_def bind_Inr)
  moreover have "\<forall>i<?R. \<forall>j<?C. entry res i j = dot a b i j"
    using res by (simp add: entry_def)
  ultimately show ?thesis using res shape_valid[of res] by auto
qed

text \<open>
  C1, as the code has it. \<open>operator*\<close> fails with DimensionMismatch when the columns
  of the left operand differ from the rows of the right one. On operands \<open>a\<close>
  (\<open>r \<times> n\<close>) and \<open>b\<close> (\<open>n \<times> c\<close>) that satisfy the invariant, when the size \<open>r * c\<close> of the
  result is below \<open>2^64\<close> and its buffer is granted, it returns a new Matrix of shape
  \<open>(r, c)\<close>, satisfying the invariant, whose element at \<open>(i, j)\<close> is
  \<open>(\<dots>((0.0 + a[i][0] * b[0][j]) + a[i][1] * b[1][j]) + \<dots>) + a[i][n-1] * b[n-1][j]\<close>:
  the terms added one after the other, \<open>k\<close> innermost and ascending. When the buffer
  is refused the outcome is \<open>bad_alloc\<close>.
\<close>

theorem operator_times_triple_loop:
  fixes a b :: "('a::{zero,plus,times}) Matrix"
  shows "(cols a \<noteq> rows b \<longrightarrow> operator_times alloc a b = Inl DimensionMismatch_mul)
   \<and> (valid a \<and> valid b \<and> cols a = rows b \<and> unat (rows a) * unat (cols b) < 2 ^ 64
        \<and> vector_alloc alloc (unat (rows a) * unat (cols b)) \<longrightarrow>
        (\<exists>res. operator_times alloc a b = Inr res \<and> rows res = rows a \<and> cols res = cols b
           \<and> valid res
           \<and> (\<forall>i j. i < rows a \<and> j < cols b \<longrightarrow>
                 at_const res i j
                   = Inr (foldl (\<lambda>sum k. sum + entry a (unat i) k * entry b k (unat j)) 0
                            [0..<unat (cols a)]))))
   \<and> (cols a = rows b \<and> \<not> vector_alloc alloc (unat (rows a * cols b)) \<longrightarrow>
        operator_times alloc a b = Inl (Throw bad_alloc))"
proof (intro conjI impI)
  show "operator_times alloc a b = Inl DimensionMismatch_mul" if "cols a \<noteq> rows b"
    by (rule operator_times_mismatch[OF that])
  show "operator_times alloc a b = Inl (Throw bad_alloc)"
    if "cols a = rows b \<and> \<not> vector_alloc alloc (unat (rows a * cols b))"
    using that by (intro operator_times_refused) simp_all
next
  assume h: "valid a \<and> valid b \<and> cols a = rows b \<and> unat (rows a) * unat (cols b) < 2 ^ 64
        \<and> vector_alloc alloc (unat (rows a) * unat (cols b))"
  then obtain res where
    res: "operator_times alloc a b = Inr res" "rows res = rows a" "cols res = cols b" "valid res"
    and e: "\<forall>i<unat (rows a). \<forall>j<unat (cols b). entry res i j = dot a b i j"
    using operator_times_valid[of a b alloc] by blast
  have "at_const res i j
          = Inr (foldl (\<lambda>sum k. sum + entry a (unat i) k * entry b k (unat j)) 0 [0..<unat (cols a)])"
    if ij: "i < rows a" "j < cols b" for i j
  proof -
    have u: "unat i < unat (rows a)" "unat j < unat (cols b)"
      using ij by (simp_all add: word_less_nat_alt)
    have "at_const res i j = Inr (entry res (unat i) (unat j))"
      using at_const_word[OF res(4), of i j] ij res(2,3) by simp
    then show ?thesis using e u by (simp add: dot_def)
  qed
  then show "\<exists>res. operator_times alloc a b = Inr res \<and> rows res = rows a \<and> cols res = cols b
           \<and> valid res
           \<and> (\<forall>i j. i < rows a \<and> j < cols b \<longrightarrow>
                 at_const res i j
                   = Inr (foldl (\<lambda>sum k. sum + entry a (unat i) k * entry b k (unat j)) 0
                            [0..<unat (cols a)]))"
    using res by blast
qed

theorem operator_times_triple_loop_witness:
  "(\<exists>res. operator_times grant_all \<lparr>rows = 2, cols = 2, data = [1, 2, 3, 4 :: real]\<rparr>
             \<lparr>rows = 2, cols = 2, data = [5, 6, 7, 8]\<rparr> = Inr res
      \<and> rows res = 2 \<and> cols res = 2 \<and> valid res
      \<and> at_const res 0 0 = Inr 19 \<and> at_const res 0 1 = Inr 22
      \<and> at_const res 1 0 = Inr 43 \<and> at_const res 1 1 = Inr 50)
   \<and> operator_times grant_all \<lparr>rows = 2, cols = 3, data = [1, 2, 3, 4, 5, 6 :: real]\<rparr>
        \<lparr>rows = 2, cols = 3, data = [1, 2, 3, 4, 5, 6]\<rparr> = Inl DimensionMismatch_mul
   \<and> operator_times grant_none \<lparr>rows = 2, cols = 2, data = [1, 2, 3, 4 :: real]\<rparr>
        \<lparr>rows = 2, cols = 2, data = [5, 6, 7, 8]\<rparr> = Inl (Throw bad_alloc)"
proof -
  let ?a = "\<lparr>rows = 2, cols = 2, data = [1, 2, 3, 4 :: real]\<rparr>"
  let ?b = "\<lparr>rows = 2, cols = 2, data = [5, 6, 7, 8 :: real]\<rparr>"
  let ?c = "\<lparr>rows = 2, cols = 3, data = [1, 2, 3, 4, 5, 6 :: real]\<rparr>"
  have v: "valid ?a" "valid ?b" by (simp_all add: valid_def)
  have b: "(0 :: size_t) < 2" "(1 :: size_t) < 2" by (simp_all add: word_less_nat_alt)
  from operator_times_triple_loop[of ?a ?b grant_all] v
  obtain res where res: "operator_times grant_all ?a ?b = Inr res" "rows res = 2" "cols res = 2"
    "valid res"
    and e: "\<forall>i j. i < 2 \<and> j < 2 \<longrightarrow> at_const res i j
              = Inr (foldl (\<lambda>sum k. sum + entry ?a (unat i) k * entry ?b k (unat j)) 0 [0..<unat (2 :: size_t)])"
    by (auto simp: vector_alloc_def)
  have up: "[0..<(2 :: nat)] = [0, 1]" by (simp add: upt_rec)
  from e b have "at_const res 0 0 = Inr 19" "at_const res 0 1 = Inr 22"
    "at_const res 1 0 = Inr 43" "at_const res 1 1 = Inr 50"
    by (simp_all add: up entry_def)
  moreover have "operator_times grant_all ?c ?c = Inl DimensionMismatch_mul"
    using operator_times_triple_loop[of ?c ?c grant_all] by simp
  moreover have "operator_times grant_none ?a ?b = Inl (Throw bad_alloc)"
    using operator_times_triple_loop[of ?a ?b grant_none] by (simp add: vector_alloc_def)
  ultimately show ?thesis using res by blast
qed

text \<open>
  The claim C1 as written fails where the size of the result overflows. A
  \<open>2^32 \<times> 1\<close> and a \<open>1 \<times> 2^32\<close> matrix both satisfy the invariant and their inner
  dimensions agree, but the \<open>2^32 \<times> 2^32\<close> result is constructed with an empty
  buffer (\<open>2^64\<close> wraps to 0), and the first assignment \<open>result.at(0, 0) = sum\<close> passes
  the bounds check and writes outside it: no Matrix is returned.
\<close>

theorem operator_times_overflow_undefined:
  "valid \<lparr>rows = 2 ^ 32, cols = 1, data = replicate (2 ^ 32) (0 :: real)\<rparr>
   \<and> valid \<lparr>rows = 1, cols = 2 ^ 32, data = replicate (2 ^ 32) (0 :: real)\<rparr>
   \<and> cols \<lparr>rows = 2 ^ 32, cols = 1, data = replicate (2 ^ 32) (0 :: real)\<rparr>
       = rows \<lparr>rows = 1, cols = 2 ^ 32, data = replicate (2 ^ 32) (0 :: real)\<rparr>
   \<and> operator_times grant_all
        \<lparr>rows = 2 ^ 32, cols = 1, data = replicate (2 ^ 32) (0 :: real)\<rparr>
        \<lparr>rows = 1, cols = 2 ^ 32, data = replicate (2 ^ 32) (0 :: real)\<rparr> = Inl Undefined"
  by (simp add: valid_def operator_times_def Matrix_ctor_def vector_alloc_def bind_def
      for_loop.simps at_const_def at_mut_def vec_read_def vec_ref_def)

section \<open>The invariant the code maintains\<close>

lemma valid_mod_same_shape: "same_shape s t \<Longrightarrow> valid_mod s \<Longrightarrow> valid_mod t"
  by (simp add: same_shape_def valid_mod_def)

lemma same_shape_refl: "same_shape s s"
  by (simp add: same_shape_def)

lemma same_shape_trans: "same_shape s t \<Longrightarrow> same_shape t u \<Longrightarrow> same_shape s u"
  by (simp add: same_shape_def)

lemma for_loop_same_shape:
  assumes "for_loop i n body s = Inr s'"
    and "\<And>k t t'. body k t = Inr t' \<Longrightarrow> same_shape t t'"
  shows "same_shape s s'"
proof (rule for_loop_preserves[OF assms(1), where Q = "same_shape s"])
  show "same_shape s s" by (rule same_shape_refl)
  fix k t t' assume "same_shape s t" "body k t = Inr t'"
  then show "same_shape s t'" using assms(2) same_shape_trans by blast
qed

lemma operator_plus_valid_mod:
  fixes a b :: "('a::{zero,plus}) Matrix"
  assumes "operator_plus alloc a b = Inr res"
  shows "valid_mod res \<and> rows res = rows a \<and> cols res = cols a"
proof -
  let ?body = "\<lambda>i (result :: 'a Matrix).
          bind (vec_read (data a) i) (\<lambda>x.
          bind (vec_read (data b) i) (\<lambda>y.
          bind (vec_write (data result) i (x + y)) (\<lambda>d.
          Inr (result\<lparr>data := d\<rparr>))))"
  from assms have eq: "bind (Matrix_ctor alloc (rows a) (cols a))
      (\<lambda>result. for_loop 0 (vsize (data a)) ?body result) = Inr res"
    by (simp add: operator_plus_def split: if_splits)
  then obtain r0 :: "'a Matrix" where c: "Matrix_ctor alloc (rows a) (cols a) = Inr r0"
    and l: "for_loop 0 (vsize (data a)) ?body r0 = Inr res"
    by (blast dest: bind_eq_Inr)
  have "same_shape r0 res"
  proof (rule for_loop_same_shape[OF l])
    fix k and t t' :: "'a Matrix" assume "?body k t = Inr t'"
    then show "same_shape t t'"
      by (auto simp: same_shape_def vec_write_def dest!: bind_eq_Inr split: if_splits)
  qed
  then show ?thesis using Matrix_ctor_valid_mod[OF c] valid_mod_same_shape[of r0 res]
    by (simp add: same_shape_def)
qed

lemma transpose_matrix_valid_mod:
  fixes a :: "('a::zero) Matrix"
  assumes "transpose_matrix alloc a = Inr res"
  shows "valid_mod res \<and> rows res = cols a \<and> cols res = rows a"
proof -
  let ?inner = "\<lambda>i j (result :: 'a Matrix).
           bind (at_const a i j) (\<lambda>x.
           bind (at_mut result j i) (\<lambda>l.
           Inr (assign result l x)))"
  let ?outer = "\<lambda>i (result :: 'a Matrix). for_loop 0 (cols a) (?inner i) result"
  from assms obtain r0 :: "'a Matrix" where c: "Matrix_ctor alloc (cols a) (rows a) = Inr r0"
    and l: "for_loop 0 (rows a) ?outer r0 = Inr res"
    unfolding transpose_matrix_def by (blast dest: bind_eq_Inr)
  have inner: "same_shape t t'" if "?inner i j t = Inr t'" for i j and t t' :: "'a Matrix"
    using that by (auto simp: same_shape_def assign_shape dest!: bind_eq_Inr)
  have "same_shape r0 res"
  proof (rule for_loop_same_shape[OF l])
    fix k and t t' :: "'a Matrix" assume "?outer k t = Inr t'"
    then show "same_shape t t'"
      by (rule for_loop_same_shape) (rule inner)
  qed
  then show ?thesis using Matrix_ctor_valid_mod[OF c] valid_mod_same_shape[of r0 res]
    by (simp add: same_shape_def)
qed

lemma operator_times_valid_mod:
  fixes a b :: "('a::{zero,plus,times}) Matrix"
  assumes "operator_times alloc a b = Inr res"
  shows "valid_mod res \<and> rows res = rows a \<and> cols res = cols b"
proof -
  let ?sumbody = "\<lambda>i j k (sum :: 'a).
                    bind (at_const a i k) (\<lambda>x.
                    bind (at_const b k j) (\<lambda>y.
                    Inr (sum + x * y)))"
  let ?inner = "\<lambda>i j (result :: 'a Matrix).
            bind (for_loop 0 (cols a) (?sumbody i j) 0) (\<lambda>sum.
            bind (at_mut result i j) (\<lambda>l.
            Inr (assign result l sum)))"
  let ?outer = "\<lambda>i (result :: 'a Matrix). for_loop 0 (cols b) (?inner i) result"
  from assms have eq: "bind (Matrix_ctor alloc (rows a) (cols b))
      (\<lambda>result. for_loop 0 (rows a) ?outer result) = Inr res"
    by (simp add: operator_times_def split: if_splits)
  then obtain r0 :: "'a Matrix" where c: "Matrix_ctor alloc (rows a) (cols b) = Inr r0"
    and l: "for_loop 0 (rows a) ?outer r0 = Inr res"
    by (blast dest: bind_eq_Inr)
  have inner: "same_shape t t'" if "?inner i j t = Inr t'" for i j and t t' :: "'a Matrix"
    using that by (auto simp: same_shape_def assign_shape dest!: bind_eq_Inr)
  have "same_shape r0 res"
  proof (rule for_loop_same_shape[OF l])
    fix k and t t' :: "'a Matrix" assume "?outer k t = Inr t'"
    then show "same_shape t t'"
      by (rule for_loop_same_shape) (rule inner)
  qed
  then show ?thesis using Matrix_ctor_valid_mod[OF c] valid_mod_same_shape[of r0 res]
    by (simp add: same_shape_def)
qed

text \<open>
  C8, as the code has it. Every Matrix that a constructor yields has \<open>rows > 0\<close>,
  \<open>cols > 0\<close> and a buffer whose length is \<open>rows * cols\<close> taken modulo \<open>2^64\<close>, which
  is the product itself whenever that is below \<open>2^64\<close>. Whatever \<open>operator+\<close>,
  \<open>operator*\<close> and \<open>transpose\<close> return satisfies the same, with the shape the
  operation prescribes; it satisfies the invariant with the product in the naturals
  when the operand of \<open>operator+\<close> or \<open>transpose\<close> does, and for \<open>operator*\<close> when the
  size of the result is below \<open>2^64\<close>. An assignment through \<open>at\<close> changes neither
  rows nor cols nor the length of the buffer. The three operations are \<open>const\<close>
  member functions taking \<open>const\<close> references: the model's functions take the
  operands as values and return the new Matrix only.
\<close>

theorem invariant_maintained:
  fixes a b m :: "('a::{zero,plus,times}) Matrix"
  shows "(Matrix_ctor alloc r c = Inr m \<longrightarrow> valid_mod m \<and> rows m = r \<and> cols m = c)
   \<and> (length d < 2 ^ 64 \<and> Matrix_ctor_data alloc r c d = Inr m \<longrightarrow>
         valid_mod m \<and> rows m = r \<and> cols m = c)
   \<and> (operator_plus alloc a b = Inr m \<longrightarrow> valid_mod m \<and> rows m = rows a \<and> cols m = cols a)
   \<and> (operator_times alloc a b = Inr m \<longrightarrow> valid_mod m \<and> rows m = rows a \<and> cols m = cols b)
   \<and> (transpose_matrix alloc a = Inr m \<longrightarrow> valid_mod m \<and> rows m = cols a \<and> cols m = rows a)
   \<and> same_shape m (assign m l v)
   \<and> (valid_mod m \<and> unat (rows m) * unat (cols m) < 2 ^ 64 \<longrightarrow> valid m)
   \<and> (valid m \<longrightarrow> valid_mod m)
   \<and> (valid a \<and> operator_plus alloc a b = Inr m \<longrightarrow> valid m)
   \<and> (valid a \<and> transpose_matrix alloc a = Inr m \<longrightarrow> valid m)
   \<and> (unat (rows a) * unat (cols b) < 2 ^ 64 \<and> operator_times alloc a b = Inr m \<longrightarrow> valid m)"
proof -
  have 1: "Matrix_ctor alloc r c = Inr m \<longrightarrow> valid_mod m \<and> rows m = r \<and> cols m = c"
    using Matrix_ctor_valid_mod[of alloc r c m] by blast
  have 2: "length d < 2 ^ 64 \<and> Matrix_ctor_data alloc r c d = Inr m \<longrightarrow>
         valid_mod m \<and> rows m = r \<and> cols m = c"
    using Matrix_ctor_data_valid_mod[of d alloc r c m] by blast
  have 3: "operator_plus alloc a b = Inr m \<longrightarrow> valid_mod m \<and> rows m = rows a \<and> cols m = cols a"
    using operator_plus_valid_mod[of alloc a b m] by blast
  have 4: "operator_times alloc a b = Inr m \<longrightarrow> valid_mod m \<and> rows m = rows a \<and> cols m = cols b"
    using operator_times_valid_mod[of alloc a b m] by blast
  have 5: "transpose_matrix alloc a = Inr m \<longrightarrow> valid_mod m \<and> rows m = cols a \<and> cols m = rows a"
    using transpose_matrix_valid_mod[of alloc a m] by blast
  have 6: "same_shape m (assign m l v)"
    by (simp add: same_shape_def assign_shape)
  have 7: "valid_mod m \<and> unat (rows m) * unat (cols m) < 2 ^ 64 \<longrightarrow> valid m"
    using valid_mod_imp_valid[of m] by blast
  have 8: "valid m \<longrightarrow> valid_mod m"
    using valid_imp_valid_mod[of m] by blast
  have fits: "unat (rows a) * unat (cols a) < 2 ^ 64" if "valid a"
    using that by (simp add: valid_def)
  have 9: "valid a \<and> operator_plus alloc a b = Inr m \<longrightarrow> valid m"
    using 3 fits by (auto intro: valid_mod_imp_valid)
  have 10: "valid a \<and> transpose_matrix alloc a = Inr m \<longrightarrow> valid m"
    using 5 fits by (auto intro: valid_mod_imp_valid simp: mult.commute)
  have 11: "unat (rows a) * unat (cols b) < 2 ^ 64 \<and> operator_times alloc a b = Inr m \<longrightarrow> valid m"
    using 4 by (auto intro: valid_mod_imp_valid)
  show ?thesis
    by (intro conjI) (fact 1 2 3 4 5 6 7 8 9 10 11)+
qed

theorem invariant_maintained_witness:
  "valid_mod \<lparr>rows = 2, cols = 2, data = [0, 0, 0, 0 :: real]\<rparr>
   \<and> valid \<lparr>rows = 2, cols = 2, data = [0, 0, 0, 0 :: real]\<rparr>
   \<and> Matrix_ctor grant_all 2 2 = Inr \<lparr>rows = 2, cols = 2, data = [0, 0, 0, 0 :: real]\<rparr>
   \<and> Matrix_ctor_data grant_all 2 2 [0, 0, 0, 0 :: real]
       = Inr \<lparr>rows = 2, cols = 2, data = [0, 0, 0, 0]\<rparr>
   \<and> operator_plus grant_all \<lparr>rows = 2, cols = 2, data = [0, 0, 0, 0 :: real]\<rparr>
        \<lparr>rows = 2, cols = 2, data = [0, 0, 0, 0]\<rparr>
       = Inr \<lparr>rows = 2, cols = 2, data = [0, 0, 0, 0]\<rparr>
   \<and> operator_times grant_all \<lparr>rows = 2, cols = 2, data = [0, 0, 0, 0 :: real]\<rparr>
        \<lparr>rows = 2, cols = 2, data = [0, 0, 0, 0]\<rparr>
       = Inr \<lparr>rows = 2, cols = 2, data = [0, 0, 0, 0]\<rparr>
   \<and> transpose_matrix grant_all \<lparr>rows = 2, cols = 2, data = [0, 0, 0, 0 :: real]\<rparr>
       = Inr \<lparr>rows = 2, cols = 2, data = [0, 0, 0, 0]\<rparr>"
proof -
  let ?z = "\<lparr>rows = 2, cols = 2, data = [0, 0, 0, 0 :: real]\<rparr>"
  have w: "\<not> (2 :: size_t) \<le> 0" "\<not> (2 :: size_t) \<le> 1" "(0 :: size_t) < 2" "(1 :: size_t) < 2" "\<not> (2 :: size_t) < 2"
    "(0 :: size_t) < 4" "(1 :: size_t) < 4" "(2 :: size_t) < 4" "(3 :: size_t) < 4" "\<not> (4 :: size_t) < 4"
    by (simp_all add: word_less_nat_alt word_le_nat_alt)
  have r: "replicate 4 (0 :: real) = [0, 0, 0, 0]" by (simp add: numeral_eq_Suc)
  have c: "Matrix_ctor grant_all 2 2 = Inr ?z"
    by (simp add: Matrix_ctor_def vector_alloc_def r)
  have d: "Matrix_ctor_data grant_all 2 2 [0, 0, 0, 0 :: real] = Inr ?z"
    by (simp add: Matrix_ctor_data_def vector_alloc_def vsize_def)
  have p: "operator_plus grant_all ?z ?z = Inr ?z"
    by (simp add: operator_plus_def c bind_def vsize_def for_loop.simps vec_read_def vec_write_def w)
  have t: "operator_times grant_all ?z ?z = Inr ?z"
    by (simp add: operator_times_def c bind_def for_loop.simps at_const_def at_mut_def
        vec_read_def vec_ref_def assign_def w)
  have x: "transpose_matrix grant_all ?z = Inr ?z"
    by (simp add: transpose_matrix_def c bind_def for_loop.simps at_const_def at_mut_def
        vec_read_def vec_ref_def assign_def w)
  show ?thesis
    using invariant_maintained[where alloc = grant_all and r = 2 and c = 2 and m = ?z
        and d = "[0, 0, 0, 0]" and a = ?z and b = ?z and l = 0 and v = 0] c d p t x
    by simp
qed

text \<open>
  The claim C8 as written, with the product in the naturals, fails for a Matrix that
  is constructed successfully: \<open>Matrix(2^63, 2)\<close> has positive dimensions and an
  empty buffer, not one of \<open>2^64\<close> elements.
\<close>

theorem constructed_matrix_breaks_product:
  "(Matrix_ctor grant_all (2 ^ 63) 2 :: real Matrix result)
     = Inr \<lparr>rows = 2 ^ 63, cols = 2, data = []\<rparr>
   \<and> rows \<lparr>rows = 2 ^ 63, cols = 2, data = ([] :: real list)\<rparr> \<noteq> 0
   \<and> cols \<lparr>rows = 2 ^ 63, cols = 2, data = ([] :: real list)\<rparr> \<noteq> 0
   \<and> length (data \<lparr>rows = 2 ^ 63, cols = 2, data = ([] :: real list)\<rparr>)
       \<noteq> unat (2 ^ 63 :: size_t) * unat (2 :: size_t)
   \<and> \<not> valid \<lparr>rows = 2 ^ 63, cols = 2, data = ([] :: real list)\<rparr>"
  by (simp add: Matrix_ctor_def vector_alloc_def valid_def)

section \<open>The C interface: failures become the null handle\<close>

text \<open>
  With non-zero dimensions the three operations throw only what their first
  statements throw: inside the loops every call of \<open>at\<close> is in bounds.
\<close>

lemma vec_read_no_throw: "vec_read xs i \<noteq> Inl (Throw e)"
  by (simp add: vec_read_def)

lemma vec_write_no_throw: "vec_write xs i v \<noteq> Inl (Throw e)"
  by (simp add: vec_write_def)

lemma at_const_throws: "at_const m r c = Inl (Throw e) \<Longrightarrow> r \<ge> rows m \<or> c \<ge> cols m"
  by (simp add: at_const_def vec_read_def split: if_splits)

lemma at_mut_throws: "at_mut m r c = Inl (Throw e) \<Longrightarrow> r \<ge> rows m \<or> c \<ge> cols m"
  by (simp add: at_mut_def vec_ref_def split: if_splits)

lemma operator_plus_throws:
  fixes a b :: "('a::{zero,plus}) Matrix"
  assumes "operator_plus alloc a b = Inl (Throw e)" "rows a \<noteq> 0" "cols a \<noteq> 0"
  shows "rows a \<noteq> rows b \<or> cols a \<noteq> cols b \<or> \<not> vector_alloc alloc (unat (rows a * cols a))"
proof (rule ccontr)
  assume "\<not> ?thesis"
  then have shape: "rows a = rows b" "cols a = cols b"
    and mem: "vector_alloc alloc (unat (rows a * cols a))" by simp_all
  let ?body = "\<lambda>i (result :: 'a Matrix).
          bind (vec_read (data a) i) (\<lambda>x.
          bind (vec_read (data b) i) (\<lambda>y.
          bind (vec_write (data result) i (x + y)) (\<lambda>d.
          Inr (result\<lparr>data := d\<rparr>))))"
  let ?res0 = "\<lparr>rows = rows a, cols = cols a, data = replicate (unat (rows a * cols a)) (0::'a)\<rparr>"
  have ctor: "Matrix_ctor alloc (rows a) (cols a) = Inr ?res0"
    using assms(2,3) mem by (simp add: Matrix_ctor_def)
  from assms(1) shape ctor have "for_loop 0 (vsize (data a)) ?body ?res0 = Inl (Throw e)"
    by (simp add: operator_plus_def bind_Inr)
  from for_loop_failure[OF this, where Q = "\<lambda>_. True"]
  obtain k t where "?body k t = Inl (Throw e)" by blast
  then show False
    by (auto dest!: bind_eq_Throw simp: vec_read_no_throw vec_write_no_throw)
qed

lemma transpose_matrix_throws:
  fixes m :: "('a::zero) Matrix"
  assumes "transpose_matrix alloc m = Inl (Throw e)" "rows m \<noteq> 0" "cols m \<noteq> 0"
  shows "\<not> vector_alloc alloc (unat (cols m * rows m))"
proof
  assume mem: "vector_alloc alloc (unat (cols m * rows m))"
  let ?inner = "\<lambda>i j (result :: 'a Matrix).
           bind (at_const m i j) (\<lambda>x.
           bind (at_mut result j i) (\<lambda>l.
           Inr (assign result l x)))"
  let ?outer = "\<lambda>i (result :: 'a Matrix). for_loop 0 (cols m) (?inner i) result"
  let ?res0 = "\<lparr>rows = cols m, cols = rows m, data = replicate (unat (cols m * rows m)) (0::'a)\<rparr>"
  let ?Q = "\<lambda>t :: 'a Matrix. rows t = cols m \<and> cols t = rows m"
  have ctor: "Matrix_ctor alloc (cols m) (rows m) = Inr ?res0"
    using assms(2,3) mem by (simp add: Matrix_ctor_def)
  from assms(1) ctor have l: "for_loop 0 (rows m) ?outer ?res0 = Inl (Throw e)"
    by (simp add: transpose_matrix_def bind_Inr)
  have inner_keeps: "?Q t'" if "?Q t" "?inner i j t = Inr t'" for i j and t t' :: "'a Matrix"
    using that by (auto simp: assign_shape dest!: bind_eq_Inr)
  have outer_keeps: "?Q t'" if "?Q t" "?outer i t = Inr t'" for i and t t' :: "'a Matrix"
    by (rule for_loop_preserves[where Q = ?Q, OF that(2) that(1)]) (rule inner_keeps)
  have "\<exists>i t. i < rows m \<and> ?Q t \<and> ?outer i t = Inl (Throw e)"
  proof (rule for_loop_failure[OF l, where Q = ?Q])
    show "?Q ?res0" by simp
    fix k and t t' :: "'a Matrix" assume "k < rows m" "?Q t" "?outer k t = Inr t'"
    then show "?Q t'" using outer_keeps[of t k t'] by blast
  qed
  then obtain i t where i: "i < rows m" and t: "?Q t" and f: "?outer i t = Inl (Throw e)" by blast
  have "\<exists>j u. j < cols m \<and> ?Q u \<and> ?inner i j u = Inl (Throw e)"
  proof (rule for_loop_failure[OF f, where Q = ?Q])
    show "?Q t" by (rule t)
    fix k and u u' :: "'a Matrix" assume "k < cols m" "?Q u" "?inner i k u = Inr u'"
    then show "?Q u'" using inner_keeps[of u i k u'] by blast
  qed
  then obtain j u where j: "j < cols m" and u: "?Q u" and g: "?inner i j u = Inl (Throw e)" by blast
  from g have "at_const m i j = Inl (Throw e) \<or> (\<exists>x. at_mut u j i = Inl (Throw e))"
    by (auto dest!: bind_eq_Throw)
  with i j u show False
    by (auto dest!: at_const_throws at_mut_throws)
qed

lemma operator_times_throws:
  fixes a b :: "('a::{zero,plus,times}) Matrix"
  assumes "operator_times alloc a b = Inl (Throw e)" "rows a \<noteq> 0" "cols b \<noteq> 0"
  shows "cols a \<noteq> rows b \<or> \<not> vector_alloc alloc (unat (rows a * cols b))"
proof (rule ccontr)
  assume "\<not> ?thesis"
  then have inner: "cols a = rows b" and mem: "vector_alloc alloc (unat (rows a * cols b))"
    by simp_all
  let ?sumbody = "\<lambda>i j k (sum :: 'a).
                    bind (at_const a i k) (\<lambda>x.
                    bind (at_const b k j) (\<lambda>y.
                    Inr (sum + x * y)))"
  let ?inner = "\<lambda>i j (result :: 'a Matrix).
            bind (for_loop 0 (cols a) (?sumbody i j) 0) (\<lambda>sum.
            bind (at_mut result i j) (\<lambda>l.
            Inr (assign result l sum)))"
  let ?outer = "\<lambda>i (result :: 'a Matrix). for_loop 0 (cols b) (?inner i) result"
  let ?res0 = "\<lparr>rows = rows a, cols = cols b, data = replicate (unat (rows a * cols b)) (0::'a)\<rparr>"
  let ?Q = "\<lambda>t :: 'a Matrix. rows t = rows a \<and> cols t = cols b"
  have ctor: "Matrix_ctor alloc (rows a) (cols b) = Inr ?res0"
    using assms(2,3) mem by (simp add: Matrix_ctor_def)
  from assms(1) inner ctor have l: "for_loop 0 (rows a) ?outer ?res0 = Inl (Throw e)"
    by (simp add: operator_times_def bind_Inr)
  have inner_keeps: "?Q t'" if "?Q t" "?inner i j t = Inr t'" for i j and t t' :: "'a Matrix"
    using that by (auto simp: assign_shape dest!: bind_eq_Inr)
  have outer_keeps: "?Q t'" if "?Q t" "?outer i t = Inr t'" for i and t t' :: "'a Matrix"
    by (rule for_loop_preserves[where Q = ?Q, OF that(2) that(1)]) (rule inner_keeps)
  have "\<exists>i t. i < rows a \<and> ?Q t \<and> ?outer i t = Inl (Throw e)"
  proof (rule for_loop_failure[OF l, where Q = ?Q])
    show "?Q ?res0" by simp
    fix k and t t' :: "'a Matrix" assume "k < rows a" "?Q t" "?outer k t = Inr t'"
    then show "?Q t'" using outer_keeps[of t k t'] by blast
  qed
  then obtain i t where i: "i < rows a" and t: "?Q t" and f: "?outer i t = Inl (Throw e)" by blast
  have "\<exists>j u. j < cols b \<and> ?Q u \<and> ?inner i j u = Inl (Throw e)"
  proof (rule for_loop_failure[OF f, where Q = ?Q])
    show "?Q t" by (rule t)
    fix k and u u' :: "'a Matrix" assume "k < cols b" "?Q u" "?inner i k u = Inr u'"
    then show "?Q u'" using inner_keeps[of u i k u'] by blast
  qed
  then obtain j u where j: "j < cols b" and u: "?Q u" and g: "?inner i j u = Inl (Throw e)" by blast
  have sum_no_throw: "for_loop 0 (cols a) (?sumbody i j) 0 \<noteq> Inl (Throw e)"
  proof
    assume "for_loop 0 (cols a) (?sumbody i j) 0 = Inl (Throw e)"
    from for_loop_failure[OF this, where Q = "\<lambda>_. True"]
    obtain k s where k: "k < cols a" and "?sumbody i j k s = Inl (Throw e)" by blast
    then have "at_const a i k = Inl (Throw e) \<or> at_const b k j = Inl (Throw e)"
      by (auto dest!: bind_eq_Throw)
    with i j k inner show False
      by (auto dest!: at_const_throws)
  qed
  from g sum_no_throw have "at_mut u i j = Inl (Throw e)"
    by (auto dest!: bind_eq_Throw)
  with i j u show False
    by (auto dest!: at_mut_throws)
qed

lemma catch_all_no_throw: "catch_all r \<noteq> Inl (Throw e)"
  by (auto simp: catch_all_def split: sum.splits fault.splits)

lemma catch_all_Throw: "catch_all (Inl (Throw e)) = Inr None"
  by (simp add: catch_all_def)

lemma catch_all_Inr: "catch_all (Inr m) = Inr (Some m)"
  by (simp add: catch_all_def)

lemma star_Some: "star (Some m) = Inr m"
  by (simp add: star_def)

lemma matrix_create_sentinel:
  "\<exists>h :: ('a::zero) handle. matrix_create alloc r c = Inr h
      \<and> (h = None \<longleftrightarrow> r = 0 \<or> c = 0 \<or> \<not> alloc Object \<or> \<not> vector_alloc alloc (unat (r * c)))"
  by (auto simp: matrix_create_def new_Matrix_def Matrix_ctor_def catch_all_def InvalidDimension_def)

lemma matrix_add_result:
  "matrix_add alloc (Some a) (Some b) = catch_all (bind (operator_plus alloc a b) (\<lambda>result. new_Matrix alloc (Inr result)))"
  by (simp add: matrix_add_def star_Some bind_Inr)

lemma matrix_multiply_result:
  "matrix_multiply alloc (Some a) (Some b) = catch_all (bind (operator_times alloc a b) (\<lambda>result. new_Matrix alloc (Inr result)))"
  by (simp add: matrix_multiply_def star_Some bind_Inr)

lemma matrix_transpose_result:
  "matrix_transpose alloc (Some m) = catch_all (bind (transpose_matrix alloc m) (\<lambda>result. new_Matrix alloc (Inr result)))"
  by (simp add: matrix_transpose_def star_Some bind_Inr)

lemma handle_of_result:
  "catch_all (bind (Inr res) (\<lambda>result. new_Matrix alloc (Inr result)))
     = (if alloc Object then Inr (Some res) else Inr None)"
  by (simp add: bind_Inr new_Matrix_def catch_all_Throw catch_all_Inr)

lemma handle_of_throw:
  "catch_all (bind (Inl (Throw e)) (\<lambda>result. new_Matrix alloc (Inr result))) = Inr None"
  by (simp add: bind_Inl catch_all_Throw)

lemma handle_None:
  assumes "catch_all (bind r (\<lambda>result. new_Matrix alloc (Inr result))) = Inr None"
  shows "(\<exists>e. r = Inl (Throw e)) \<or> \<not> alloc Object"
proof (cases r)
  case (Inl f)
  with assms show ?thesis by (cases f) (simp_all add: bind_Inl catch_all_def)
next
  case (Inr res)
  with assms show ?thesis by (simp add: handle_of_result split: if_splits)
qed

lemma matrix_add_sentinel:
  fixes a b :: "('a::{zero,plus}) Matrix"
  assumes va: "valid_mod a" and vb: "valid_mod b"
  shows "\<exists>h. matrix_add alloc (Some a) (Some b) = Inr h
      \<and> (h = None \<longleftrightarrow> rows a \<noteq> rows b \<or> cols a \<noteq> cols b
            \<or> \<not> vector_alloc alloc (length (data a)) \<or> \<not> alloc Object)"
proof -
  have len: "unat (rows a * cols a) = length (data a)" using va by (simp add: valid_mod_def)
  consider (mismatch) "rows a \<noteq> rows b \<or> cols a \<noteq> cols b"
    | (refused) "rows a = rows b" "cols a = cols b" "\<not> vector_alloc alloc (length (data a))"
    | (granted) "rows a = rows b" "cols a = cols b" "vector_alloc alloc (length (data a))"
    by blast
  then show ?thesis
  proof cases
    case mismatch
    then show ?thesis
      using operator_plus_mismatch[OF mismatch, of alloc]
      by (auto simp: matrix_add_result DimensionMismatch_add_def handle_of_throw)
  next
    case refused
    then have "operator_plus alloc a b = Inl (Throw bad_alloc)"
      using len by (intro operator_plus_refused) simp_all
    then show ?thesis using refused
      by (simp add: matrix_add_result handle_of_throw)
  next
    case granted
    from operator_plus_constructed[OF va vb granted]
    show ?thesis using granted
      by (simp add: matrix_add_result handle_of_result)
  qed
qed

lemma matrix_multiply_sentinel:
  fixes a b :: "('a::{zero,plus,times}) Matrix"
  assumes va: "valid a" and vb: "valid b"
    and fit: "cols a = rows b \<longrightarrow> unat (rows a) * unat (cols b) < 2 ^ 64"
  shows "\<exists>h. matrix_multiply alloc (Some a) (Some b) = Inr h
      \<and> (h = None \<longleftrightarrow> cols a \<noteq> rows b
            \<or> \<not> vector_alloc alloc (unat (rows a) * unat (cols b)) \<or> \<not> alloc Object)"
proof -
  consider (mismatch) "cols a \<noteq> rows b"
    | (refused) "cols a = rows b" "\<not> vector_alloc alloc (unat (rows a) * unat (cols b))"
    | (granted) "cols a = rows b" "vector_alloc alloc (unat (rows a) * unat (cols b))"
    by blast
  then show ?thesis
  proof cases
    case mismatch
    then show ?thesis
      by (simp add: matrix_multiply_result operator_times_mismatch
          DimensionMismatch_mul_def handle_of_throw)
  next
    case refused
    then have "unat (rows a * cols b) = unat (rows a) * unat (cols b)"
      using fit by (simp add: unat_word_ariths)
    then have "operator_times alloc a b = Inl (Throw bad_alloc)"
      using refused by (intro operator_times_refused) simp_all
    then show ?thesis using refused
      by (simp add: matrix_multiply_result handle_of_throw)
  next
    case granted
    from granted(1) fit have "unat (rows a) * unat (cols b) < 2 ^ 64" by simp
    from operator_times_valid[OF va vb granted(1) this granted(2)]
    obtain res where "operator_times alloc a b = Inr res" by blast
    then show ?thesis using granted
      by (simp add: matrix_multiply_result handle_of_result)
  qed
qed

lemma matrix_multiply_sentinel_only:
  fixes a b :: "('a::{zero,plus,times}) Matrix"
  assumes "valid_mod a" "valid_mod b" "matrix_multiply alloc (Some a) (Some b) = Inr None"
  shows "cols a \<noteq> rows b \<or> \<not> vector_alloc alloc (unat (rows a * cols b)) \<or> \<not> alloc Object"
proof -
  from assms(3) handle_None[of "operator_times alloc a b" alloc]
  have "(\<exists>e. operator_times alloc a b = Inl (Throw e)) \<or> \<not> alloc Object"
    by (simp add: matrix_multiply_result)
  then show ?thesis
    using operator_times_throws[of alloc a b] assms(1,2) by (auto simp: valid_mod_def)
qed

lemma matrix_transpose_sentinel:
  fixes m :: "('a::zero) Matrix"
  assumes vm: "valid m"
  shows "\<exists>h. matrix_transpose alloc (Some m) = Inr h
      \<and> (h = None \<longleftrightarrow> \<not> vector_alloc alloc (length (data m)) \<or> \<not> alloc Object)"
proof (cases "vector_alloc alloc (length (data m))")
  case True
  from transpose_matrix_valid[OF vm True]
  obtain res where "transpose_matrix alloc m = Inr res" by blast
  then show ?thesis using True
    by (simp add: matrix_transpose_result handle_of_result)
next
  case False
  then have "transpose_matrix alloc m = Inl (Throw bad_alloc)"
    using valid_count[OF vm] by (intro transpose_matrix_refused) (simp add: mult.commute)
  then show ?thesis using False
    by (simp add: matrix_transpose_result handle_of_throw)
qed

lemma matrix_transpose_sentinel_only:
  fixes m :: "('a::zero) Matrix"
  assumes "valid_mod m" "matrix_transpose alloc (Some m) = Inr None"
  shows "\<not> vector_alloc alloc (length (data m)) \<or> \<not> alloc Object"
proof -
  from assms(2) handle_None[of "transpose_matrix alloc m" alloc]
  have "(\<exists>e. transpose_matrix alloc m = Inl (Throw e)) \<or> \<not> alloc Object"
    by (simp add: matrix_transpose_result)
  then show ?thesis
    using transpose_matrix_throws[of alloc m] assms(1) by (auto simp: valid_mod_def mult.commute)
qed

text \<open>
  C3, as the code has it. No exception leaves \<open>matrix_create\<close>, \<open>matrix_add\<close>,
  \<open>matrix_multiply\<close> or \<open>matrix_transpose\<close>, whatever the arguments.
  \<open>matrix_create\<close> returns the null handle exactly when \<open>rows = 0\<close> or \<open>cols = 0\<close> or
  an allocation (of the object or of its buffer) is refused. For all live handles,
  \<open>matrix_add\<close> and \<open>matrix_multiply\<close> return the null handle on a dimension
  mismatch and on a refused allocation (of the result's buffer, or of the object
  once the operation has returned), and \<open>matrix_transpose\<close> on a refused allocation;
  a result the operation returns is handed out when the object is granted. On
  handles to matrices as the constructors and operations yield them,
  \<open>matrix_add\<close> returns the null handle exactly then, and \<open>matrix_multiply\<close> and
  \<open>matrix_transpose\<close> return it only then. On handles to matrices that satisfy the
  invariant with the product in the naturals \<open>matrix_transpose\<close> returns the null
  handle exactly on a refused allocation, and \<open>matrix_multiply\<close> exactly on a
  mismatch or a refused allocation when the size of the product is below \<open>2^64\<close>.
\<close>

theorem boundary_returns_sentinel:
  fixes a b m res :: "('a::{zero,plus,times}) Matrix" and ha hb :: "'a handle"
  shows "(matrix_create alloc r c :: 'a handle result) \<noteq> Inl (Throw e)
   \<and> matrix_add alloc ha hb \<noteq> Inl (Throw e)
   \<and> matrix_multiply alloc ha hb \<noteq> Inl (Throw e)
   \<and> matrix_transpose alloc ha \<noteq> Inl (Throw e)
   \<and> (\<exists>h :: 'a handle. matrix_create alloc r c = Inr h
        \<and> (h = None \<longleftrightarrow> r = 0 \<or> c = 0 \<or> \<not> alloc Object \<or> \<not> vector_alloc alloc (unat (r * c))))
   \<and> (rows a \<noteq> rows b \<or> cols a \<noteq> cols b \<longrightarrow> matrix_add alloc (Some a) (Some b) = Inr None)
   \<and> (rows a = rows b \<and> cols a = cols b \<and> \<not> vector_alloc alloc (unat (rows a * cols a)) \<longrightarrow>
        matrix_add alloc (Some a) (Some b) = Inr None)
   \<and> (operator_plus alloc a b = Inr res \<longrightarrow>
        matrix_add alloc (Some a) (Some b) = (if alloc Object then Inr (Some res) else Inr None))
   \<and> (valid_mod a \<and> valid_mod b \<longrightarrow>
        (\<exists>h. matrix_add alloc (Some a) (Some b) = Inr h
           \<and> (h = None \<longleftrightarrow> rows a \<noteq> rows b \<or> cols a \<noteq> cols b
                 \<or> \<not> vector_alloc alloc (length (data a)) \<or> \<not> alloc Object)))
   \<and> (cols a \<noteq> rows b \<longrightarrow> matrix_multiply alloc (Some a) (Some b) = Inr None)
   \<and> (cols a = rows b \<and> \<not> vector_alloc alloc (unat (rows a * cols b)) \<longrightarrow>
        matrix_multiply alloc (Some a) (Some b) = Inr None)
   \<and> (operator_times alloc a b = Inr res \<longrightarrow>
        matrix_multiply alloc (Some a) (Some b) = (if alloc Object then Inr (Some res) else Inr None))
   \<and> (valid_mod a \<and> valid_mod b \<and> matrix_multiply alloc (Some a) (Some b) = Inr None \<longrightarrow>
        cols a \<noteq> rows b \<or> \<not> vector_alloc alloc (unat (rows a * cols b)) \<or> \<not> alloc Object)
   \<and> (valid a \<and> valid b \<and> (cols a = rows b \<longrightarrow> unat (rows a) * unat (cols b) < 2 ^ 64) \<longrightarrow>
        (\<exists>h. matrix_multiply alloc (Some a) (Some b) = Inr h
           \<and> (h = None \<longleftrightarrow> cols a \<noteq> rows b
                 \<or> \<not> vector_alloc alloc (unat (rows a) * unat (cols b)) \<or> \<not> alloc Object)))
   \<and> (\<not> vector_alloc alloc (unat (cols m * rows m)) \<longrightarrow> matrix_transpose alloc (Some m) = Inr None)
   \<and> (transpose_matrix alloc m = Inr res \<longrightarrow>
        matrix_transpose alloc (Some m) = (if alloc Object then Inr (Some res) else Inr None))
   \<and> (valid_mod m \<and> matrix_transpose alloc (Some m) = Inr None \<longrightarrow>
        \<not> vector_alloc alloc (length (data m)) \<or> \<not> alloc Object)
   \<and> (valid m \<longrightarrow>
        (\<exists>h. matrix_transpose alloc (Some m) = Inr h
           \<and> (h = None \<longleftrightarrow> \<not> vector_alloc alloc (length (data m)) \<or> \<not> alloc Object)))"
proof -
  have 1: "(matrix_create alloc r c :: 'a handle result) \<noteq> Inl (Throw e)"
    by (simp add: matrix_create_def catch_all_no_throw)
  have 2: "matrix_add alloc ha hb \<noteq> Inl (Throw e)"
    by (simp add: matrix_add_def catch_all_no_throw)
  have 3: "matrix_multiply alloc ha hb \<noteq> Inl (Throw e)"
    by (simp add: matrix_multiply_def catch_all_no_throw)
  have 4: "matrix_transpose alloc ha \<noteq> Inl (Throw e)"
    by (simp add: matrix_transpose_def catch_all_no_throw)
  have 5: "\<exists>h :: 'a handle. matrix_create alloc r c = Inr h
        \<and> (h = None \<longleftrightarrow> r = 0 \<or> c = 0 \<or> \<not> alloc Object \<or> \<not> vector_alloc alloc (unat (r * c)))"
    by (rule matrix_create_sentinel)
  have a1: "rows a \<noteq> rows b \<or> cols a \<noteq> cols b \<longrightarrow> matrix_add alloc (Some a) (Some b) = Inr None"
    using operator_plus_mismatch[of a b alloc]
    by (auto simp: matrix_add_result DimensionMismatch_add_def handle_of_throw)
  have a2: "rows a = rows b \<and> cols a = cols b \<and> \<not> vector_alloc alloc (unat (rows a * cols a)) \<longrightarrow>
        matrix_add alloc (Some a) (Some b) = Inr None"
    using operator_plus_refused[of a b alloc]
    by (auto simp: matrix_add_result handle_of_throw)
  have a3: "operator_plus alloc a b = Inr res \<longrightarrow>
        matrix_add alloc (Some a) (Some b) = (if alloc Object then Inr (Some res) else Inr None)"
    by (simp add: matrix_add_result handle_of_result)
  have a4: "valid_mod a \<and> valid_mod b \<longrightarrow>
        (\<exists>h. matrix_add alloc (Some a) (Some b) = Inr h
           \<and> (h = None \<longleftrightarrow> rows a \<noteq> rows b \<or> cols a \<noteq> cols b
                 \<or> \<not> vector_alloc alloc (length (data a)) \<or> \<not> alloc Object))"
    using matrix_add_sentinel[of a b alloc] by blast
  have m1: "cols a \<noteq> rows b \<longrightarrow> matrix_multiply alloc (Some a) (Some b) = Inr None"
    using operator_times_mismatch[of a b alloc]
    by (auto simp: matrix_multiply_result DimensionMismatch_mul_def handle_of_throw)
  have m2: "cols a = rows b \<and> \<not> vector_alloc alloc (unat (rows a * cols b)) \<longrightarrow>
        matrix_multiply alloc (Some a) (Some b) = Inr None"
    using operator_times_refused[of a b alloc]
    by (auto simp: matrix_multiply_result handle_of_throw)
  have m3: "operator_times alloc a b = Inr res \<longrightarrow>
        matrix_multiply alloc (Some a) (Some b) = (if alloc Object then Inr (Some res) else Inr None)"
    by (simp add: matrix_multiply_result handle_of_result)
  have m4: "valid_mod a \<and> valid_mod b \<and> matrix_multiply alloc (Some a) (Some b) = Inr None \<longrightarrow>
        cols a \<noteq> rows b \<or> \<not> vector_alloc alloc (unat (rows a * cols b)) \<or> \<not> alloc Object"
    using matrix_multiply_sentinel_only[of a b alloc] by blast
  have m5: "valid a \<and> valid b \<and> (cols a = rows b \<longrightarrow> unat (rows a) * unat (cols b) < 2 ^ 64) \<longrightarrow>
        (\<exists>h. matrix_multiply alloc (Some a) (Some b) = Inr h
           \<and> (h = None \<longleftrightarrow> cols a \<noteq> rows b
                 \<or> \<not> vector_alloc alloc (unat (rows a) * unat (cols b)) \<or> \<not> alloc Object))"
    using matrix_multiply_sentinel[of a b alloc] by blast
  have t1: "\<not> vector_alloc alloc (unat (cols m * rows m)) \<longrightarrow> matrix_transpose alloc (Some m) = Inr None"
    using transpose_matrix_refused[of alloc m]
    by (auto simp: matrix_transpose_result handle_of_throw)
  have t2: "transpose_matrix alloc m = Inr res \<longrightarrow>
        matrix_transpose alloc (Some m) = (if alloc Object then Inr (Some res) else Inr None)"
    by (simp add: matrix_transpose_result handle_of_result)
  have t3: "valid_mod m \<and> matrix_transpose alloc (Some m) = Inr None \<longrightarrow>
        \<not> vector_alloc alloc (length (data m)) \<or> \<not> alloc Object"
    using matrix_transpose_sentinel_only[of m alloc] by blast
  have t4: "valid m \<longrightarrow>
        (\<exists>h. matrix_transpose alloc (Some m) = Inr h
           \<and> (h = None \<longleftrightarrow> \<not> vector_alloc alloc (length (data m)) \<or> \<not> alloc Object))"
    using matrix_transpose_sentinel[of m alloc] by blast
  show ?thesis
    by (intro conjI) (fact 1 2 3 4 5 a1 a2 a3 a4 m1 m2 m3 m4 m5 t1 t2 t3 t4)+
qed

theorem boundary_returns_sentinel_witness:
  "matrix_create grant_all 0 5 = (Inr None :: real handle result)
   \<and> matrix_create grant_buffers 2 2 = (Inr None :: real handle result)
   \<and> matrix_add grant_all (Some \<lparr>rows = 2, cols = 3, data = [1, 2, 3, 4, 5, 6 :: real]\<rparr>)
        (Some \<lparr>rows = 3, cols = 2, data = [1, 2, 3, 4, 5, 6]\<rparr>) = Inr None
   \<and> matrix_add grant_none (Some \<lparr>rows = 2, cols = 3, data = [1, 2, 3, 4, 5, 6 :: real]\<rparr>)
        (Some \<lparr>rows = 2, cols = 3, data = [1, 2, 3, 4, 5, 6]\<rparr>) = Inr None
   \<and> matrix_add grant_buffers (Some \<lparr>rows = 2, cols = 3, data = [1, 2, 3, 4, 5, 6 :: real]\<rparr>)
        (Some \<lparr>rows = 2, cols = 3, data = [1, 2, 3, 4, 5, 6]\<rparr>) = Inr None
   \<and> (\<exists>t. matrix_add grant_all (Some \<lparr>rows = 2 ^ 32, cols = 2 ^ 32, data = ([] :: real list)\<rparr>)
        (Some \<lparr>rows = 2 ^ 32, cols = 2 ^ 32, data = []\<rparr>) = Inr (Some t))
   \<and> matrix_add grant_all (Some \<lparr>rows = 2, cols = 2, data = [0, 0, 0, 0 :: real]\<rparr>)
        (Some \<lparr>rows = 2, cols = 2, data = [0, 0, 0, 0]\<rparr>)
       = Inr (Some \<lparr>rows = 2, cols = 2, data = [0, 0, 0, 0]\<rparr>)
   \<and> matrix_multiply grant_all (Some \<lparr>rows = 2, cols = 3, data = [1, 2, 3, 4, 5, 6 :: real]\<rparr>)
        (Some \<lparr>rows = 4, cols = 5, data = replicate 20 0\<rparr>) = Inr None
   \<and> matrix_multiply grant_none (Some \<lparr>rows = 2, cols = 3, data = [1, 2, 3, 4, 5, 6 :: real]\<rparr>)
        (Some \<lparr>rows = 3, cols = 2, data = [1, 2, 3, 4, 5, 6]\<rparr>) = Inr None
   \<and> (\<exists>t. matrix_multiply grant_all (Some \<lparr>rows = 2, cols = 3, data = [1, 2, 3, 4, 5, 6 :: real]\<rparr>)
        (Some \<lparr>rows = 3, cols = 2, data = [1, 2, 3, 4, 5, 6]\<rparr>) = Inr (Some t))
   \<and> matrix_multiply grant_all (Some \<lparr>rows = 2, cols = 2, data = [0, 0, 0, 0 :: real]\<rparr>)
        (Some \<lparr>rows = 2, cols = 2, data = [0, 0, 0, 0]\<rparr>)
       = Inr (Some \<lparr>rows = 2, cols = 2, data = [0, 0, 0, 0]\<rparr>)
   \<and> matrix_transpose grant_none (Some \<lparr>rows = 2, cols = 3, data = [1, 2, 3, 4, 5, 6 :: real]\<rparr>)
        = Inr None
   \<and> \<not> vector_alloc grant_none (length [1, 2, 3, 4, 5, 6 :: real])
   \<and> (\<exists>t. matrix_transpose grant_all (Some \<lparr>rows = 2, cols = 3, data = [1, 2, 3, 4, 5, 6 :: real]\<rparr>)
        = Inr (Some t))
   \<and> matrix_transpose grant_all (Some \<lparr>rows = 2, cols = 2, data = [0, 0, 0, 0 :: real]\<rparr>)
       = Inr (Some \<lparr>rows = 2, cols = 2, data = [0, 0, 0, 0]\<rparr>)"
proof -
  let ?a = "\<lparr>rows = 2, cols = 3, data = [1, 2, 3, 4, 5, 6 :: real]\<rparr>"
  let ?b = "\<lparr>rows = 4, cols = 5, data = replicate 20 (0 :: real)\<rparr>"
  let ?c = "\<lparr>rows = 3, cols = 2, data = [1, 2, 3, 4, 5, 6 :: real]\<rparr>"
  let ?e = "\<lparr>rows = 2 ^ 32, cols = 2 ^ 32, data = ([] :: real list)\<rparr>"
  let ?z = "\<lparr>rows = 2, cols = 2, data = [0, 0, 0, 0 :: real]\<rparr>"
  have v: "valid ?a" "valid ?b" "valid ?c" "valid_mod ?a" "valid_mod ?b" "valid_mod ?c" "valid_mod ?e"
    by (simp_all add: valid_def valid_mod_def)
  have w: "\<not> (2 :: size_t) \<le> 0" "\<not> (2 :: size_t) \<le> 1" "(0 :: size_t) < 2" "(1 :: size_t) < 2" "\<not> (2 :: size_t) < 2"
    "(0 :: size_t) < 4" "(1 :: size_t) < 4" "(2 :: size_t) < 4" "(3 :: size_t) < 4" "\<not> (4 :: size_t) < 4"
    by (simp_all add: word_less_nat_alt word_le_nat_alt)
  have r: "replicate 4 (0 :: real) = [0, 0, 0, 0]" by (simp add: numeral_eq_Suc)
  have zc: "Matrix_ctor grant_all 2 2 = Inr ?z"
    by (simp add: Matrix_ctor_def vector_alloc_def r)
  have zp: "operator_plus grant_all ?z ?z = Inr ?z"
    by (simp add: operator_plus_def zc bind_def vsize_def for_loop.simps vec_read_def vec_write_def w)
  have zt: "operator_times grant_all ?z ?z = Inr ?z"
    by (simp add: operator_times_def zc bind_def for_loop.simps at_const_def at_mut_def
        vec_read_def vec_ref_def assign_def w)
  have zx: "transpose_matrix grant_all ?z = Inr ?z"
    by (simp add: transpose_matrix_def zc bind_def for_loop.simps at_const_def at_mut_def
        vec_read_def vec_ref_def assign_def w)
  note th = boundary_returns_sentinel[where 'a = real and e = bad_alloc and ha = None and hb = None]
  have 1: "matrix_create grant_all 0 5 = (Inr None :: real handle result)"
    using th[where alloc = grant_all and r = 0 and c = 5 and a = ?a and b = ?a and m = ?a and res = ?a]
    by auto
  have 2: "matrix_create grant_buffers 2 2 = (Inr None :: real handle result)"
    using th[where alloc = grant_buffers and r = 2 and c = 2 and a = ?a and b = ?a and m = ?a and res = ?a]
    by auto
  have 3: "matrix_add grant_all (Some ?a) (Some ?c) = Inr None"
    using th[where alloc = grant_all and r = 0 and c = 5 and a = ?a and b = ?c and m = ?a and res = ?a]
    by simp
  have 4: "matrix_add grant_none (Some ?a) (Some ?a) = Inr None"
    using th[where alloc = grant_none and r = 0 and c = 5 and a = ?a and b = ?a and m = ?a and res = ?a]
    by (simp add: vector_alloc_def)
  have 5: "matrix_add grant_buffers (Some ?a) (Some ?a) = Inr None"
    using th[where alloc = grant_buffers and r = 0 and c = 5 and a = ?a and b = ?a and m = ?a and res = ?a] v
    by auto
  have 6: "\<exists>t. matrix_add grant_all (Some ?e) (Some ?e) = Inr (Some t)"
    using th[where alloc = grant_all and r = 0 and c = 5 and a = ?e and b = ?e and m = ?a and res = ?a] v
    by (auto simp: vector_alloc_def)
  have 7: "matrix_add grant_all (Some ?z) (Some ?z) = Inr (Some ?z)"
    using th[where alloc = grant_all and r = 0 and c = 5 and a = ?z and b = ?z and m = ?z and res = ?z] zp
    by simp
  have 8: "matrix_multiply grant_all (Some ?a) (Some ?b) = Inr None"
    using th[where alloc = grant_all and r = 0 and c = 5 and a = ?a and b = ?b and m = ?a and res = ?a]
    by simp
  have 9: "matrix_multiply grant_none (Some ?a) (Some ?c) = Inr None"
    using th[where alloc = grant_none and r = 0 and c = 5 and a = ?a and b = ?c and m = ?a and res = ?a]
    by (simp add: vector_alloc_def)
  have 10: "\<exists>t. matrix_multiply grant_all (Some ?a) (Some ?c) = Inr (Some t)"
    using th[where alloc = grant_all and r = 0 and c = 5 and a = ?a and b = ?c and m = ?a and res = ?a] v
    by (auto simp: vector_alloc_def)
  have 11: "matrix_multiply grant_all (Some ?z) (Some ?z) = Inr (Some ?z)"
    using th[where alloc = grant_all and r = 0 and c = 5 and a = ?z and b = ?z and m = ?z and res = ?z] zt
    by simp
  have 12: "matrix_transpose grant_none (Some ?a) = Inr None"
    using th[where alloc = grant_none and r = 0 and c = 5 and a = ?a and b = ?a and m = ?a and res = ?a]
    by (simp add: vector_alloc_def)
  have 13: "\<not> vector_alloc grant_none (length [1, 2, 3, 4, 5, 6 :: real])"
    using th[where alloc = grant_none and r = 0 and c = 5 and a = ?a and b = ?a and m = ?a and res = ?a] v 12
    by (simp add: vector_alloc_def)
  have 14: "\<exists>t. matrix_transpose grant_all (Some ?a) = Inr (Some t)"
    using th[where alloc = grant_all and r = 0 and c = 5 and a = ?a and b = ?a and m = ?a and res = ?a] v
    by (auto simp: vector_alloc_def)
  have 15: "matrix_transpose grant_all (Some ?z) = Inr (Some ?z)"
    using th[where alloc = grant_all and r = 0 and c = 5 and a = ?z and b = ?z and m = ?z and res = ?z] zx
    by simp
  from 1 2 3 4 5 6 7 8 9 10 11 12 13 14 15 show ?thesis by simp
qed

text \<open>
  The claim C3 as written fails for \<open>matrix_create\<close>: with both dimensions \<open>2^31\<close>,
  neither of them 0, the buffer of \<open>2^62\<close> doubles is more than any allocator can
  grant (here the one that grants whatever a 64-bit address space could hold); the
  exception is caught and the null handle returned.
\<close>

theorem matrix_create_sentinel_on_alloc_failure:
  "matrix_create grant_addressable (2 ^ 31) (2 ^ 31)
     = (Inr None :: real handle result)
   \<and> (2 ^ 31 :: size_t) \<noteq> 0"
  by (simp add: matrix_create_def new_Matrix_def Matrix_ctor_def vector_alloc_def catch_all_def)

end
